theory Spec2Isabelle
  imports Main "HOL-Library.Word"
begin

unbundle bit_operations_syntax

section \<open>Machine types and module state\<close>

type_synonym u8 = "8 word"
type_synonym u16 = "16 word"
type_synonym u32 = "32 word"

text \<open>\<open>s32\<close> values are 32-bit words read through \<open>sint\<close>.\<close>

type_synonym s32 = "32 word"

text \<open>
  Modelled from the spec: the declaration of \<open>StateData\<close> lives in \<open>RTC.h\<close>, which is
  not part of the sources at hand. The fields are the ones \<open>RTC.cpp\<close> uses; the
  fixed-size byte arrays (\<open>DateTime[7]\<close>, the three-byte alarm arrays) are lists; a
  theorem that reads back a byte it has stored states the length of the list.
  \<open>MinuteCount\<close> is incremented and read as a 32-bit value.
\<close>

record StateData =
  StatusReg1 :: u8
  StatusReg2 :: u8
  DateTime :: "u8 list"
  Alarm1 :: "u8 list"
  Alarm2 :: "u8 list"
  ClockAdjust :: u8
  FreeReg :: u8
  MinuteCount :: u32
  FOUT1 :: u8
  FOUT2 :: u8
  AlarmDate1 :: "u8 list"
  AlarmDate2 :: "u8 list"

text \<open>The globals of namespace \<open>RTC\<close>, in the order of their declaration.\<close>

record rtc =
  IO :: u16
  Input :: u8
  InputBit :: u32
  InputPos :: u32
  Output :: "u8 list"
  OutputBit :: u32
  OutputPos :: u32
  CurCmd :: u8
  State :: StateData
  TimerError :: s32
  ClockCount :: u32

section \<open>BCD helpers\<close>

definition BCD :: "u8 \<Rightarrow> u8" where
  "BCD val = (val mod 10) OR push_bit 4 (val div 10)"

definition BCDIncrement :: "u8 \<Rightarrow> u8" where
  "BCDIncrement val =
     (let v1 = val + 1;
          v2 = (if (v1 AND 0x0F) \<ge> 0x0A then v1 + 0x06 else v1);
          v3 = (if (v2 AND 0xF0) \<ge> 0xA0 then v2 + 0x60 else v2)
      in v3)"

definition BCDSanitize :: "u8 \<Rightarrow> u8 \<Rightarrow> u8 \<Rightarrow> u8" where
  "BCDSanitize val vmin vmax =
     (if val < vmin \<or> val > vmax then vmin
      else if (val AND 0x0F) \<ge> 0x0A then vmin
      else if (val AND 0xF0) \<ge> 0xA0 then vmin
      else val)"

section \<open>Calendar\<close>

text \<open>\<open>memset(&State, 0, sizeof(State))\<close> followed by the two assignments.\<close>

definition ResetState :: "StateData" where
  "ResetState =
     \<lparr> StatusReg1 = 0, StatusReg2 = 0,
       DateTime = [0, 1, 1, 0, 0, 0, 0],
       Alarm1 = [0, 0, 0], Alarm2 = [0, 0, 0],
       ClockAdjust = 0, FreeReg = 0, MinuteCount = 0, FOUT1 = 0, FOUT2 = 0,
       AlarmDate1 = [0, 0, 0], AlarmDate2 = [0, 0, 0] \<rparr>"

text \<open>The year is read into a C \<open>int\<close>; the leap test is \<open>!(year & 3)\<close> on that \<open>int\<close>.\<close>

definition DaysInMonth :: "StateData \<Rightarrow> u8" where
  "DaysInMonth st =
     (let m = DateTime st ! 1 in
      if m = 0x01 \<or> m = 0x03 \<or> m = 0x05 \<or> m = 0x07 \<or> m = 0x08 \<or> m = 0x10 \<or> m = 0x12
        then 0x31
      else if m = 0x04 \<or> m = 0x06 \<or> m = 0x09 \<or> m = 0x11
        then 0x30
      else if m = 0x02
        then (let year0 = uint (DateTime st ! 0);
                  year = (year0 AND 0xF) + (drop_bit 4 year0) * 10
              in if year AND 3 = 0 then 0x29 else 0x28)
      else 0)"

definition CountYear :: "StateData \<Rightarrow> StateData" where
  "CountYear st = st\<lparr>DateTime := (DateTime st)[0 := BCDIncrement (DateTime st ! 0)]\<rparr>"

definition CountMonth :: "StateData \<Rightarrow> StateData" where
  "CountMonth st =
     (let st1 = st\<lparr>DateTime := (DateTime st)[1 := BCDIncrement (DateTime st ! 1)]\<rparr>
      in if DateTime st1 ! 1 > 0x12
         then CountYear (st1\<lparr>DateTime := (DateTime st1)[1 := 1]\<rparr>)
         else st1)"

definition CheckEndOfMonth :: "StateData \<Rightarrow> StateData" where
  "CheckEndOfMonth st =
     (if DateTime st ! 2 > DaysInMonth st
      then CountMonth (st\<lparr>DateTime := (DateTime st)[2 := 1]\<rparr>)
      else st)"

definition CountDay :: "StateData \<Rightarrow> StateData" where
  "CountDay st =
     (let dow1 = DateTime st ! 3 + 1;
          dow = (if dow1 \<ge> 7 then 0 else dow1);
          st1 = st\<lparr>DateTime := (DateTime st)[3 := dow]\<rparr>;
          st2 = st1\<lparr>DateTime := (DateTime st1)[2 := BCDIncrement (DateTime st1 ! 2)]\<rparr>
      in CheckEndOfMonth st2)"

definition CountHour :: "StateData \<Rightarrow> StateData" where
  "CountHour st =
     (let hour = BCDIncrement (DateTime st ! 4 AND 0x3F);
          pm = DateTime st ! 4 AND 0x40
      in if StatusReg1 st AND 2 \<noteq> 0
         then \<comment> \<open>24-hour mode\<close>
           (let (hour1, st1) = (if hour \<ge> 0x24 then (0, CountDay st) else (hour, st));
                pm1 = (if hour1 \<ge> 0x12 then 0x40 else 0)
            in st1\<lparr>DateTime := (DateTime st1)[4 := hour1 OR pm1]\<rparr>)
         else \<comment> \<open>12-hour mode\<close>
           (let (hour1, st1, pm1) =
                  (if hour \<ge> 0x12
                   then (0, if pm \<noteq> 0 then CountDay st else st, pm XOR 0x40)
                   else (hour, st, pm))
            in st1\<lparr>DateTime := (DateTime st1)[4 := hour1 OR pm1]\<rparr>))"

definition CountMinute :: "StateData \<Rightarrow> StateData" where
  "CountMinute st =
     (let st1 = st\<lparr>MinuteCount := MinuteCount st + 1\<rparr>;
          st2 = st1\<lparr>DateTime := (DateTime st1)[5 := BCDIncrement (DateTime st1 ! 5)]\<rparr>
      in if DateTime st2 ! 5 \<ge> 0x60
         then CountHour (st2\<lparr>DateTime := (DateTime st2)[5 := 0]\<rparr>)
         else st2)"

definition CountSecond :: "StateData \<Rightarrow> StateData" where
  "CountSecond st =
     (let st1 = st\<lparr>DateTime := (DateTime st)[6 := BCDIncrement (DateTime st ! 6)]\<rparr>
      in if DateTime st1 ! 6 \<ge> 0x60
         then CountMinute (st1\<lparr>DateTime := (DateTime st1)[6 := 0]\<rparr>)
         else st1)"

section \<open>Timer\<close>

text \<open>
  \<open>ScheduleTimer\<close> hands \<open>delay\<close> to the host scheduler (\<open>NDS::ScheduleEvent\<close>); the
  model returns that delay together with the updated globals. \<open>sysclock >> 15\<close> on an
  \<open>s32\<close> is the arithmetic shift.
\<close>

definition ScheduleTimer :: "bool \<Rightarrow> rtc \<Rightarrow> s32 \<times> rtc" where
  "ScheduleTimer first s =
     (let s1 = (if first then s\<lparr>TimerError := 0\<rparr> else s);
          sysclock = 33513982 + TimerError s1;
          delay = signed_drop_bit 15 sysclock
      in (delay, s1\<lparr>TimerError := sysclock AND 0x7FFF\<rparr>))"

definition ClockTimer :: "rtc \<Rightarrow> s32 \<times> rtc" where
  "ClockTimer s =
     (let s1 = s\<lparr>ClockCount := ClockCount s + 1\<rparr>;
          s2 = (if ClockCount s1 AND 0x7FFF = 0
                then s1\<lparr>State := CountSecond (State s1)\<rparr> else s1)
      in ScheduleTimer False s2)"

definition Reset :: "rtc \<Rightarrow> s32 \<times> rtc" where
  "Reset s =
     ScheduleTimer True
       (s\<lparr>Input := 0, InputBit := 0, InputPos := 0,
          Output := replicate 8 0, OutputPos := 0,
          CurCmd := 0, ClockCount := 0\<rparr>)"

text \<open>The delays of \<open>n\<close> consecutive invocations of the tick callback.\<close>

fun tick_delays :: "nat \<Rightarrow> rtc \<Rightarrow> s32 list" where
  "tick_delays 0 s = []"
| "tick_delays (Suc n) s = fst (ClockTimer s) # tick_delays n (snd (ClockTimer s))"

section \<open>Command processor\<close>

definition WriteDateTime :: "int \<Rightarrow> u8 \<Rightarrow> StateData \<Rightarrow> StateData" where
  "WriteDateTime num val st =
     (if num = 1 then st\<lparr>DateTime := (DateTime st)[0 := BCDSanitize val 0x00 0x99]\<rparr>
      else if num = 2
        then st\<lparr>DateTime := (DateTime st)[1 := BCDSanitize (val AND 0x1F) 0x01 0x12]\<rparr>
      else if num = 3
        then CheckEndOfMonth
               (st\<lparr>DateTime := (DateTime st)[2 := BCDSanitize (val AND 0x3F) 0x01 0x31]\<rparr>)
      else if num = 4
        then st\<lparr>DateTime := (DateTime st)[3 := BCDSanitize (val AND 0x07) 0x00 0x06]\<rparr>
      else if num = 5
        then (let hour0 = val AND 0x3F;
                  pm0 = val AND 0x40;
                  (hour, pm) =
                    (if StatusReg1 st AND 2 \<noteq> 0
                     then (let h = BCDSanitize hour0 0x00 0x23
                           in (h, if h \<ge> 0x12 then 0x40 else 0))
                     else (BCDSanitize hour0 0x00 0x11, pm0))
              in st\<lparr>DateTime := (DateTime st)[4 := hour OR pm]\<rparr>)
      else if num = 6
        then st\<lparr>DateTime := (DateTime st)[5 := BCDSanitize (val AND 0x7F) 0x00 0x59]\<rparr>
      else if num = 7
        then st\<lparr>DateTime := (DateTime st)[6 := BCDSanitize (val AND 0x7F) 0x00 0x59]\<rparr>
      else st)"

text \<open>\<open>memcpy(dst, &src[off], n)\<close> for arrays, byte by byte.\<close>

fun memcpy :: "u8 list \<Rightarrow> u8 list \<Rightarrow> nat \<Rightarrow> nat \<Rightarrow> u8 list" where
  "memcpy dst src off 0 = dst"
| "memcpy dst src off (Suc n) = (memcpy dst src off n)[n := src ! (off + n)]"

text \<open>
  \<open>ConsoleType\<close> is the host's \<open>NDS::ConsoleType\<close>; it is a parameter of every function
  that reads it. Calls to \<open>Log\<close> have no effect on the module and are left out.
\<close>

definition CmdRead :: "int \<Rightarrow> rtc \<Rightarrow> rtc" where
  "CmdRead ConsoleType s =
     (let st = State s; out = Output s; g = CurCmd s AND 0x70 in
      if CurCmd s AND 0x0F = 0x06 then
        (if g = 0x00 then
           s\<lparr>Output := out[0 := StatusReg1 st],
             State := st\<lparr>StatusReg1 := StatusReg1 st AND 0x0F\<rparr>\<rparr>
         else if g = 0x40 then s\<lparr>Output := out[0 := StatusReg2 st]\<rparr>
         else if g = 0x20 then s\<lparr>Output := memcpy out (DateTime st) 0 7\<rparr>
         else if g = 0x60 then s\<lparr>Output := memcpy out (DateTime st) 4 3\<rparr>
         else if g = 0x10 then
           (if StatusReg2 st AND 0x04 \<noteq> 0
            then s\<lparr>Output := memcpy out (Alarm1 st) 0 3\<rparr>
            else s\<lparr>Output := out[0 := Alarm1 st ! 2]\<rparr>)
         else if g = 0x50 then s\<lparr>Output := memcpy out (Alarm2 st) 0 3\<rparr>
         else if g = 0x30 then s\<lparr>Output := out[0 := ClockAdjust st]\<rparr>
         else if g = 0x70 then s\<lparr>Output := out[0 := FreeReg st]\<rparr>
         else s)
      else if CurCmd s AND 0x0F = 0x0E then
        (if ConsoleType \<noteq> 1 then s
         else if g = 0x00 then
           s\<lparr>Output := out[0 := ucast (drop_bit 16 (MinuteCount st) AND 0xFF),
                            1 := ucast (drop_bit 8 (MinuteCount st) AND 0xFF),
                            2 := ucast (MinuteCount st AND 0xFF)]\<rparr>
         else if g = 0x40 then s\<lparr>Output := out[0 := FOUT1 st]\<rparr>
         else if g = 0x20 then s\<lparr>Output := out[0 := FOUT2 st]\<rparr>
         else if g = 0x10 then s\<lparr>Output := memcpy out (AlarmDate1 st) 0 3\<rparr>
         else if g = 0x50 then s\<lparr>Output := memcpy out (AlarmDate2 st) 0 3\<rparr>
         else s)
      else s)"

text \<open>
  A store \<open>arr[i] = v\<close> into one of the three-byte arrays with a run-time index:
  outside the declared size the C++ behaviour is undefined, which the model reports as
  \<open>None\<close>.
\<close>

definition arr_store :: "u8 list \<Rightarrow> u32 \<Rightarrow> u8 \<Rightarrow> u8 list option" where
  "arr_store arr i v = (if unat i < 3 then Some (arr[unat i := v]) else None)"

text \<open>
  The status-1 write, \<open>case 0x00\<close> of \<open>CmdWrite\<close> at \<open>InputPos == 1\<close>. The two
  branches that reinterpret the hour byte when the 12/24-hour bit changes are
  \<open>status1_hour_24\<close> (the new mode is 24-hour) and \<open>status1_hour_12\<close>; each maps the
  old \<open>DateTime[4]\<close> to the new one.
\<close>

definition status1_hour_24 :: "u8 \<Rightarrow> u8" where
  "status1_hour_24 b =
     (let hour = b AND 0x3F;
          pm = b AND 0x40;
          hour1 = (if pm \<noteq> 0
                   then (let h = hour + 0x12
                         in if (h AND 0x0F) \<ge> 0x0A then h + 0x06 else h)
                   else hour);
          hour2 = BCDSanitize hour1 0x00 0x23
      in hour2 OR pm)"

definition status1_hour_12 :: "u8 \<Rightarrow> u8" where
  "status1_hour_12 b =
     (let hour = b AND 0x3F;
          (hour1, pm1) =
            (if hour \<ge> 0x12
             then (let h = hour - 0x12
                   in (if (h AND 0x0F) \<ge> 0x0A then h - 0x06 else h, 0x40))
             else (hour, 0));
          hour2 = BCDSanitize hour1 0x00 0x11
      in hour2 OR pm1)"

definition CmdWrite_status1 :: "u8 \<Rightarrow> StateData \<Rightarrow> StateData" where
  "CmdWrite_status1 val st0 =
     (let oldval = StatusReg1 st0;
          st1 = (if val AND 1 \<noteq> 0 then ResetState else st0);
          st2 = st1\<lparr>StatusReg1 := (StatusReg1 st1 AND 0xF0) OR (val AND 0x0E)\<rparr>
      in if (StatusReg1 st2 XOR oldval) AND 2 \<noteq> 0
         then st2\<lparr>DateTime := (DateTime st2)
                    [4 := (if StatusReg1 st2 AND 2 \<noteq> 0
                           then status1_hour_24 (DateTime st2 ! 4)
                           else status1_hour_12 (DateTime st2 ! 4))]\<rparr>
         else st2)"

definition CmdWrite :: "int \<Rightarrow> u8 \<Rightarrow> rtc \<Rightarrow> rtc option" where
  "CmdWrite ConsoleType val s =
     (let st = State s; pos = InputPos s; g = CurCmd s AND 0x70 in
      if CurCmd s AND 0x0F = 0x06 then
        (if g = 0x00 then
           (if pos = 1 then Some (s\<lparr>State := CmdWrite_status1 val st\<rparr>) else Some s)
         else if g = 0x40 then
           (if pos = 1 then Some (s\<lparr>State := st\<lparr>StatusReg2 := val\<rparr>\<rparr>) else Some s)
         else if g = 0x20 then
           (if pos \<le> 7 then Some (s\<lparr>State := WriteDateTime (uint pos) val st\<rparr>) else Some s)
         else if g = 0x60 then
           (if pos \<le> 3 then Some (s\<lparr>State := WriteDateTime (uint (pos + 4)) val st\<rparr>)
            else Some s)
         else if g = 0x10 then
           (if StatusReg2 st AND 0x04 \<noteq> 0
            then (if pos \<le> 3
                  then map_option (\<lambda>a. s\<lparr>State := st\<lparr>Alarm1 := a\<rparr>\<rparr>)
                         (arr_store (Alarm1 st) (pos - 1) val)
                  else Some s)
            else (if pos = 1 then Some (s\<lparr>State := st\<lparr>Alarm1 := (Alarm1 st)[2 := val]\<rparr>\<rparr>)
                  else Some s))
         else if g = 0x50 then
           (if pos \<le> 3
            then map_option (\<lambda>a. s\<lparr>State := st\<lparr>Alarm2 := a\<rparr>\<rparr>)
                   (arr_store (Alarm2 st) (pos - 1) val)
            else Some s)
         else if g = 0x30 then
           (if pos = 1 then Some (s\<lparr>State := st\<lparr>ClockAdjust := val\<rparr>\<rparr>) else Some s)
         else if g = 0x70 then
           (if pos = 1 then Some (s\<lparr>State := st\<lparr>FreeReg := val\<rparr>\<rparr>) else Some s)
         else Some s)
      else if CurCmd s AND 0x0F = 0x0E then
        (if ConsoleType \<noteq> 1 then Some s
         else if g = 0x00 then Some s
         else if g = 0x40 then
           (if pos = 1 then Some (s\<lparr>State := st\<lparr>FOUT1 := val\<rparr>\<rparr>) else Some s)
         else if g = 0x20 then
           (if pos = 1 then Some (s\<lparr>State := st\<lparr>FOUT2 := val\<rparr>\<rparr>) else Some s)
         else if g = 0x10 then
           (if pos \<le> 3
            then map_option (\<lambda>a. s\<lparr>State := st\<lparr>AlarmDate1 := a\<rparr>\<rparr>)
                   (arr_store (AlarmDate1 st) (pos - 1) val)
            else Some s)
         else if g = 0x50 then
           (if pos \<le> 3
            then map_option (\<lambda>a. s\<lparr>State := st\<lparr>AlarmDate2 := a\<rparr>\<rparr>)
                   (arr_store (AlarmDate2 st) (pos - 1) val)
            else Some s)
         else Some s)
      else Some s)"

text \<open>The two 16-entry tables of \<open>ByteIn\<close>; the index \<open>val & 0xF\<close> is always below 16.\<close>

definition rev_base :: "u8 list" where
  "rev_base = [0x06, 0x86, 0x46, 0xC6, 0x26, 0xA6, 0x66, 0xE6,
               0x16, 0x96, 0x56, 0xD6, 0x36, 0xB6, 0x76, 0xF6]"

definition rev_ext :: "u8 list" where
  "rev_ext = [0x0E, 0x8E, 0x4E, 0xCE, 0x2E, 0xAE, 0x6E, 0xEE,
              0x1E, 0x9E, 0x5E, 0xDE, 0x3E, 0xBE, 0x7E, 0xFE]"

text \<open>The command byte that \<open>ByteIn\<close> stores in \<open>CurCmd\<close> for a first byte \<open>val\<close>.\<close>

definition decode_cmd :: "int \<Rightarrow> u8 \<Rightarrow> u8" where
  "decode_cmd ConsoleType val =
     (let c1 = (if val AND 0xF0 = 0x60 then rev_base ! unat (val AND 0xF) else val)
      in if ConsoleType = 1 \<and> c1 AND 0xF0 = 0x70 \<and> c1 AND 0xFE \<noteq> 0x76
         then rev_ext ! unat (c1 AND 0xF)
         else c1)"

definition ByteIn :: "int \<Rightarrow> u8 \<Rightarrow> rtc \<Rightarrow> rtc option" where
  "ByteIn ConsoleType val s =
     (if InputPos s = 0
      then (let s1 = s\<lparr>CurCmd := decode_cmd ConsoleType val\<rparr>
            in Some (if CurCmd s1 AND 0x80 \<noteq> 0 then CmdRead ConsoleType s1 else s1))
      else CmdWrite ConsoleType val s)"

section \<open>Serial interface\<close>

definition Read :: "rtc \<Rightarrow> u16" where
  "Read s = IO s"

text \<open>
  \<open>1 << n\<close> is a shift of the \<open>int\<close> constant 1: a count of 32 or more is undefined in
  C++, and so is a read of \<open>Output[8]\<close> past its end; both are \<open>None\<close> in the model.
\<close>

definition shl1 :: "u32 \<Rightarrow> u32 option" where
  "shl1 n = (if unat n < 32 then Some (push_bit (unat n) 1) else None)"

definition Write_bit_in :: "int \<Rightarrow> u16 \<Rightarrow> rtc \<Rightarrow> rtc option" where
  "Write_bit_in ConsoleType val s =
     (case (if val AND 0x0001 \<noteq> 0
            then map_option (\<lambda>b. s\<lparr>Input := Input s OR ucast b\<rparr>) (shl1 (InputBit s))
            else Some s) of
        None \<Rightarrow> None
      | Some s1 \<Rightarrow>
          (let s2 = s1\<lparr>InputBit := InputBit s1 + 1\<rparr>
           in if InputBit s2 \<ge> 8
              then (case ByteIn ConsoleType (Input s2) (s2\<lparr>InputBit := 0\<rparr>) of
                      None \<Rightarrow> None
                    | Some s3 \<Rightarrow> Some (s3\<lparr>Input := 0, InputPos := InputPos s3 + 1\<rparr>))
              else Some s2))"

definition Write_bit_out :: "rtc \<Rightarrow> rtc option" where
  "Write_bit_out s =
     (if unat (OutputPos s) < 8
      then (case shl1 (OutputBit s) of
              None \<Rightarrow> None
            | Some b \<Rightarrow>
                (let s1 = (if ucast (Output s ! unat (OutputPos s)) AND b \<noteq> 0
                           then s\<lparr>IO := IO s OR 0x0001\<rparr>
                           else s\<lparr>IO := IO s AND 0xFFFE\<rparr>);
                     s2 = s1\<lparr>OutputBit := OutputBit s1 + 1\<rparr>
                 in if OutputBit s2 \<ge> 8
                    then (let s3 = s2\<lparr>OutputBit := 0\<rparr>
                          in Some (if OutputPos s3 < 7
                                   then s3\<lparr>OutputPos := OutputPos s3 + 1\<rparr> else s3))
                    else Some s2))
      else None)"

definition Write :: "int \<Rightarrow> u16 \<Rightarrow> bool \<Rightarrow> rtc \<Rightarrow> rtc option" where
  "Write ConsoleType val0 byte s =
     (let val = (if byte then val0 OR (IO s AND 0xFF00) else val0);
          r = (if val AND 0x0004 \<noteq> 0
               then (if IO s AND 0x0004 = 0
                     then Some (s\<lparr>Input := 0, InputBit := 0, InputPos := 0,
                                  Output := replicate 8 0, OutputBit := 0, OutputPos := 0\<rparr>)
                     else if val AND 0x0002 = 0
                       then (if val AND 0x0010 \<noteq> 0
                             then Write_bit_in ConsoleType val s
                             else Write_bit_out s)
                       else Some s)
               else Some s)
      in case r of
           None \<Rightarrow> None
         | Some s1 \<Rightarrow>
             Some (if val AND 0x0010 \<noteq> 0
                   then s1\<lparr>IO := val\<rparr>
                   else s1\<lparr>IO := (IO s1 AND 0x0001) OR (val AND 0xFFFE)\<rparr>))"

section \<open>Concrete states\<close>

text \<open>The globals as C++ zero-initialises them, before \<open>Init\<close> runs.\<close>

definition StateData_zero :: StateData where
  "StateData_zero =
     \<lparr> StatusReg1 = 0, StatusReg2 = 0,
       DateTime = replicate 7 0,
       Alarm1 = replicate 3 0, Alarm2 = replicate 3 0,
       ClockAdjust = 0, FreeReg = 0, MinuteCount = 0, FOUT1 = 0, FOUT2 = 0,
       AlarmDate1 = replicate 3 0, AlarmDate2 = replicate 3 0 \<rparr>"

definition rtc_zero :: rtc where
  "rtc_zero =
     \<lparr> IO = 0, Input = 0, InputBit = 0, InputPos = 0, Output = replicate 8 0,
       OutputBit = 0, OutputPos = 0, CurCmd = 0, State = StateData_zero,
       TimerError = 0, ClockCount = 0 \<rparr>"

text \<open>The register file as \<open>Init\<close> leaves it: the default date, power-on flag set.\<close>

definition Init :: "rtc \<Rightarrow> rtc" where
  "Init s = s\<lparr>State := ResetState\<lparr>StatusReg1 := 0x80\<rparr>\<rparr>"

section \<open>Host events\<close>

text \<open>
  What the host can do to the module between two observations: reset it, write the
  control register, deliver a tick, or replace the register file (\<open>Init\<close>,
  \<open>ResetState\<close>, \<open>SetState\<close>, \<open>SetDateTime\<close> and a restored snapshot of \<open>State\<close> all
  do only that). A run stops with \<open>None\<close> where \<open>Write\<close> does.
\<close>

datatype event = EvReset | EvWrite u16 bool | EvTick | EvState StateData

fun step :: "int \<Rightarrow> event \<Rightarrow> rtc \<Rightarrow> rtc option" where
  "step ConsoleType EvReset s = Some (snd (Reset s))"
| "step ConsoleType (EvWrite val byte) s = Write ConsoleType val byte s"
| "step ConsoleType EvTick s = Some (snd (ClockTimer s))"
| "step ConsoleType (EvState st) s = Some (s\<lparr>State := st\<rparr>)"

fun run :: "int \<Rightarrow> event list \<Rightarrow> rtc \<Rightarrow> rtc option" where
  "run ConsoleType [] s = Some s"
| "run ConsoleType (e # es) s =
     (case step ConsoleType e s of None \<Rightarrow> None | Some s1 \<Rightarrow> run ConsoleType es s1)"

section \<open>Specification vocabulary\<close>

text \<open>
  The decimal reading of a byte, \<open>(val & 0xF) + (val >> 4) * 10\<close>, which the module
  writes inline wherever it decodes a field, and the validity of its two nibbles.
\<close>

definition bcd_decode :: "u8 \<Rightarrow> nat" where
  "bcd_decode v = unat (v AND 0x0F) + 10 * unat (drop_bit 4 v)"

definition bcd_valid :: "u8 \<Rightarrow> bool" where
  "bcd_valid v \<longleftrightarrow> unat (v AND 0x0F) \<le> 9 \<and> unat (drop_bit 4 v) \<le> 9"

text \<open>
  Sanitization in the words of the specification: a value whose decimal reading is
  outside the bounds, or one of whose nibbles exceeds 9, is replaced by the minimum.
\<close>

definition bcdSanitize_spec :: "u8 \<Rightarrow> u8 \<Rightarrow> u8 \<Rightarrow> u8" where
  "bcdSanitize_spec v vmin vmax =
     (if bcd_decode v < bcd_decode vmin \<or> bcd_decode v > bcd_decode vmax \<or> \<not> bcd_valid v
      then vmin else v)"

text \<open>The bound pairs that \<open>WriteDateTime\<close> and the status-1 write pass to \<open>BCDSanitize\<close>.\<close>

definition sanitize_bounds :: "(u8 \<times> u8) list" where
  "sanitize_bounds =
     [(0x00, 0x99), (0x01, 0x12), (0x01, 0x31), (0x00, 0x06),
      (0x00, 0x23), (0x00, 0x11), (0x00, 0x59)]"

text \<open>The calendar's month lengths outside leap years, months counted from 1.\<close>

definition month_length :: "nat \<Rightarrow> nat" where
  "month_length m = [31, 28, 31, 30, 31, 30, 31, 31, 30, 31, 30, 31] ! (m - 1)"

text \<open>The bit reversal of a byte: bit \<open>i\<close> of the argument is bit \<open>7 - i\<close> of the result.\<close>

definition bitrev8 :: "u8 \<Rightarrow> u8" where
  "bitrev8 v =
     push_bit 7 (v AND 0x01) OR push_bit 5 (v AND 0x02) OR
     push_bit 3 (v AND 0x04) OR push_bit 1 (v AND 0x08) OR
     drop_bit 1 (v AND 0x10) OR drop_bit 3 (v AND 0x20) OR
     drop_bit 5 (v AND 0x40) OR drop_bit 7 (v AND 0x80)"

text \<open>
  The stored hour byte for hour \<open>t\<close> of the day (0 to 23): in 24-hour mode the BCD hour,
  in 12-hour mode the BCD hour modulo 12, and the PM flag 0x40 from noon on in both.
\<close>

definition hour_byte :: "bool \<Rightarrow> nat \<Rightarrow> u8" where
  "hour_byte mode24 t =
     (if mode24 then BCD (of_nat t) else BCD (of_nat (t mod 12))) OR
     (if t \<ge> 12 then 0x40 else 0)"

text \<open>A register file with its hour byte \<open>DateTime[4]\<close> replaced.\<close>

definition set_hour :: "u8 \<Rightarrow> StateData \<Rightarrow> StateData" where
  "set_hour v st = st\<lparr>DateTime := (DateTime st)[4 := v]\<rparr>"

text \<open>The bounds on the session cursors that hold between host events.\<close>

definition session_inv :: "rtc \<Rightarrow> bool" where
  "session_inv s \<longleftrightarrow>
     length (Output s) = 8 \<and> OutputPos s \<le> 7 \<and> OutputBit s < 8 \<and> InputBit s < 8"

text \<open>
  \<open>Write(val0, byte)\<close> in state \<open>s\<close> is a read-direction bit transfer: chip select is
  asserted before and in the write, the clock is low and the direction bit is clear.
\<close>

definition read_transfer :: "u16 \<Rightarrow> bool \<Rightarrow> rtc \<Rightarrow> bool" where
  "read_transfer val0 byte s \<longleftrightarrow>
     (let val = (if byte then val0 OR (IO s AND 0xFF00) else val0)
      in val AND 0x0004 \<noteq> 0 \<and> IO s AND 0x0004 \<noteq> 0 \<and> val AND 0x0002 = 0 \<and> val AND 0x0010 = 0)"

text \<open>
  The same for a write-direction bit transfer (the direction bit is set), and the eight
  control-register writes that shift the byte \<open>b\<close> in, least significant bit first: chip
  select and direction bit set, clock low, the data bit in bit 0.
\<close>

definition write_transfer :: "u16 \<Rightarrow> bool \<Rightarrow> rtc \<Rightarrow> bool" where
  "write_transfer val0 byte s \<longleftrightarrow>
     (let val = (if byte then val0 OR (IO s AND 0xFF00) else val0)
      in val AND 0x0004 \<noteq> 0 \<and> IO s AND 0x0004 \<noteq> 0 \<and> val AND 0x0002 = 0 \<and> val AND 0x0010 \<noteq> 0)"

definition shift_in :: "u8 \<Rightarrow> event list" where
  "shift_in b =
     map (\<lambda>i. EvWrite (0x0014 OR ucast (drop_bit i b AND 0x01)) False) [0, 1, 2, 3, 4, 5, 6, 7]"

text \<open>The hours of a day, for checking a property of all of them case by case.\<close>

definition day_hours :: "nat list" where
  "day_hours = [0, 1, 2, 3, 4, 5, 6, 7, 8, 9, 10, 11, 12, 13, 14, 15, 16, 17, 18, 19, 20, 21, 22, 23]"

text \<open>The sixteen nibble values, for checking a property of all bytes case by case.\<close>

definition nibbles :: "u8 list" where
  "nibbles = [0, 1, 2, 3, 4, 5, 6, 7, 8, 9, 10, 11, 12, 13, 14, 15]"

text \<open>
  The module in the middle of a session: the command byte \<open>cmd\<close> has been decoded,
  \<open>pos\<close> bytes have been received, and the register file is \<open>st\<close>.
\<close>

definition in_session :: "u8 \<Rightarrow> u32 \<Rightarrow> StateData \<Rightarrow> rtc" where
  "in_session cmd pos st = rtc_zero\<lparr>IO := 0x0014, InputPos := pos, CurCmd := cmd, State := st\<rparr>"

section \<open>Bytes by enumeration\<close>

text \<open>Every byte is \<open>16 * h + l\<close> for two nibbles; a property of all bytes can be checked
  on the 256 combinations.\<close>

lemma u8_split:
  "(\<forall>v::u8. P v) \<longleftrightarrow> list_all (\<lambda>h. list_all (\<lambda>l. P (16 * h + l)) nibbles) nibbles"
proof
  assume "\<forall>v. P v"
  then show "list_all (\<lambda>h. list_all (\<lambda>l. P (16 * h + l)) nibbles) nibbles"
    by (simp add: list_all_iff)
next
  assume a: "list_all (\<lambda>h. list_all (\<lambda>l. P (16 * h + l)) nibbles) nibbles"
  have n: "\<And>x::u8. x < 16 \<Longrightarrow> x \<in> set nibbles"
  proof -
    fix x :: u8
    assume "x < 16"
    then have "unat x < 16" by (simp add: word_less_nat_alt)
    then have "unat x \<in> {0,1,2,3,4,5,6,7,8,9,10,11,12,13,14,15}"
      by simp arith
    then have "of_nat (unat x) \<in> (of_nat ` {0,1,2,3,4,5,6,7,8,9,10,11,12,13,14,15} :: u8 set)"
      by (rule imageI)
    then show "x \<in> set nibbles" by (simp add: nibbles_def)
  qed
  show "\<forall>v. P v"
  proof
    fix v :: u8
    have "unat v < 256" using unsigned_less [of v] by simp
    then have h: "v div 16 \<in> set nibbles"
      by (intro n) (simp add: word_less_nat_alt unat_div)
    have l: "v mod 16 \<in> set nibbles"
      by (rule n) (simp add: word_less_nat_alt unat_mod)
    from a h l have "P (16 * (v div 16) + v mod 16)" by (simp add: list_all_iff)
    then show "P v" by (simp only: mult_div_mod_eq)
  qed
qed

lemmas byte_eval =
  bcd_valid_def bcd_decode_def BCDSanitize_def Let_def word_le_nat_alt word_less_nat_alt

section \<open>Drift-corrected scheduling\<close>

lemma sint_sysclock:
  assumes "0 \<le> sint (e::s32)" "sint e < 2147483648 - 33513982"
  shows "sint (33513982 + e) = 33513982 + sint e"
  using assms by (simp add: sint_word_add signed_take_bit_int_eq_self)

lemma div_carry: "(a::int) div 32768 + (b + a mod 32768) div 32768 = (a + b) div 32768"
proof -
  have "(b + a mod 32768 + a div 32768 * 32768) div 32768 =
        a div 32768 + (b + a mod 32768) div 32768"
    by (rule div_mult_self1) simp
  moreover have "b + a mod 32768 + a div 32768 * 32768 = a + b" by simp
  ultimately show ?thesis by (simp only:)
qed

lemma sint_and_7FFF: "sint ((w::s32) AND 0x7FFF) = sint w mod 32768"
proof -
  have m: "(0x7FFF::s32) = mask 15" by (simp add: mask_eq_exp_minus_1)
  have "sint (w AND mask 15) = take_bit 15 (sint w)"
    by (rule bit_eqI) (auto simp add: bit_simps bit_sint_iff)
  then show ?thesis by (simp add: m take_bit_eq_mod)
qed

lemma ScheduleTimer_False_delay:
  "fst (ScheduleTimer False s) = signed_drop_bit 15 (33513982 + TimerError s)"
  by (simp add: ScheduleTimer_def Let_def)

lemma ScheduleTimer_False_error:
  "TimerError (snd (ScheduleTimer False s)) = (33513982 + TimerError s) AND 0x7FFF"
  by (simp add: ScheduleTimer_def Let_def)

lemma ClockTimer_delay:
  "fst (ClockTimer s) = signed_drop_bit 15 (33513982 + TimerError s)"
  by (simp add: ClockTimer_def Let_def ScheduleTimer_False_delay)

lemma ClockTimer_error:
  "TimerError (snd (ClockTimer s)) = (33513982 + TimerError s) AND 0x7FFF"
  by (simp add: ClockTimer_def Let_def ScheduleTimer_False_error)

lemma ClockTimer_sint:
  assumes "0 \<le> sint (TimerError s)" "sint (TimerError s) < 2147483648 - 33513982"
  shows "sint (fst (ClockTimer s)) = (33513982 + sint (TimerError s)) div 32768"
    and "sint (TimerError (snd (ClockTimer s))) = (33513982 + sint (TimerError s)) mod 32768"
  using assms
  by (simp_all add: ClockTimer_delay ClockTimer_error sint_and_7FFF sint_sysclock
        sint_signed_drop_bit_eq drop_bit_eq_div)

text \<open>
  With a carried error inside the range of the mask, the delays of \<open>n\<close> ticks add up to
  the quotient of the cycles spent so far.
\<close>

lemma tick_delays_sum:
  "0 \<le> sint (TimerError s) \<Longrightarrow> sint (TimerError s) < 32768 \<Longrightarrow>
   (\<Sum>d\<leftarrow>tick_delays n s. sint d) = (int n * 33513982 + sint (TimerError s)) div 32768"
proof (induction n arbitrary: s)
  case 0
  then show ?case by simp
next
  case (Suc n)
  let ?e = "sint (TimerError s)"
  let ?s' = "snd (ClockTimer s)"
  have b: "0 \<le> ?e" "?e < 2147483648 - 33513982" using Suc.prems by simp_all
  have e': "sint (TimerError ?s') = (33513982 + ?e) mod 32768"
    by (rule ClockTimer_sint(2) [OF b])
  have "0 \<le> sint (TimerError ?s')" "sint (TimerError ?s') < 32768"
    by (simp_all add: e')
  then have "(\<Sum>d\<leftarrow>tick_delays n ?s'. sint d) =
      (int n * 33513982 + (33513982 + ?e) mod 32768) div 32768"
    using Suc.IH [of ?s'] by (simp add: e')
  then have "(\<Sum>d\<leftarrow>tick_delays (Suc n) s. sint d) =
      (33513982 + ?e) div 32768 + (int n * 33513982 + (33513982 + ?e) mod 32768) div 32768"
    by (simp add: ClockTimer_sint(1) [OF b])
  also have "\<dots> = ((33513982 + ?e) + int n * 33513982) div 32768"
    by (rule div_carry)
  also have "(33513982 + ?e) + int n * 33513982 = int (Suc n) * 33513982 + ?e"
    by (simp add: algebra_simps)
  finally show ?case .
qed

text \<open>What \<open>ScheduleTimer\<close> carries on is the masked value, whatever it started from.\<close>

lemma ScheduleTimer_carried:
  "0 \<le> sint (TimerError (snd (ScheduleTimer first s))) \<and>
   sint (TimerError (snd (ScheduleTimer first s))) < 32768"
  by (simp add: ScheduleTimer_def Let_def sint_and_7FFF)

lemma CmdRead_TimerError: "TimerError (CmdRead ct s) = TimerError s"
  by (simp add: CmdRead_def Let_def)

lemma CmdWrite_TimerError:
  assumes "CmdWrite ct v s = Some s'"
  shows "TimerError s' = TimerError s"
proof -
  define P where "P r \<longleftrightarrow> (\<forall>t. r = Some t \<longrightarrow> TimerError t = TimerError s)"
    for r :: "rtc option"
  have base: "\<And>st. P (Some (s\<lparr>State := st\<rparr>))" by (simp add: P_def)
  have same: "P (Some s)" by (simp add: P_def)
  have store: "\<And>f X. P (map_option (\<lambda>a. s\<lparr>State := f a\<rparr>) X)"
    by (auto simp add: P_def)
  have "P (CmdWrite ct v s)"
    unfolding CmdWrite_def Let_def by (simp add: base same store)
  then show ?thesis using assms by (simp add: P_def)
qed

lemma ByteIn_TimerError:
  assumes "ByteIn ct v s = Some s'"
  shows "TimerError s' = TimerError s"
proof (cases "InputPos s = 0")
  case True
  then show ?thesis using assms
    by (auto simp add: ByteIn_def Let_def CmdRead_TimerError)
next
  case False
  then show ?thesis using assms CmdWrite_TimerError [of ct v s s']
    by (simp add: ByteIn_def)
qed

lemma Write_bit_in_TimerError:
  assumes "Write_bit_in ct val s = Some s'"
  shows "TimerError s' = TimerError s"
proof -
  obtain s1 where s1: "(if val AND 0x0001 \<noteq> 0
            then map_option (\<lambda>b. s\<lparr>Input := Input s OR ucast b\<rparr>) (shl1 (InputBit s))
            else Some s) = Some s1"
    using assms by (auto simp add: Write_bit_in_def split: option.splits)
  then have t1: "TimerError s1 = TimerError s"
    by (auto split: if_splits)
  let ?s2 = "s1\<lparr>InputBit := InputBit s1 + 1\<rparr>"
  show ?thesis
  proof (cases "8 \<le> InputBit ?s2")
    case True
    then obtain s3 where s3: "ByteIn ct (Input ?s2) (?s2\<lparr>InputBit := 0\<rparr>) = Some s3"
      and e: "s' = s3\<lparr>Input := 0, InputPos := InputPos s3 + 1\<rparr>"
      using assms unfolding Write_bit_in_def s1
      by (auto simp add: Let_def split: option.splits)
    from ByteIn_TimerError [OF s3] show ?thesis using e t1 by simp
  next
    case False
    then have "s' = ?s2"
      using assms unfolding Write_bit_in_def s1 by (simp add: Let_def)
    then show ?thesis using t1 by simp
  qed
qed

lemma Write_bit_out_TimerError:
  assumes "Write_bit_out s = Some s'"
  shows "TimerError s' = TimerError s"
  using assms
  by (auto simp add: Write_bit_out_def Let_def split: if_splits option.splits)

lemma Write_TimerError:
  assumes "Write ct val0 byte s = Some s'"
  shows "TimerError s' = TimerError s"
  using assms unfolding Write_def Let_def
  by (auto split: option.splits if_splits
        dest: Write_bit_in_TimerError Write_bit_out_TimerError)

text \<open>No host event leaves \<open>TimerError\<close> outside the range of the mask.\<close>

lemma step_timer_range:
  assumes "0 \<le> sint (TimerError s) \<and> sint (TimerError s) < 32768"
    and "step ct e s = Some s'"
  shows "0 \<le> sint (TimerError s') \<and> sint (TimerError s') < 32768"
proof (cases e)
  case EvReset
  then show ?thesis using assms(2) ScheduleTimer_carried by (auto simp add: Reset_def)
next
  case (EvWrite val byte)
  then show ?thesis using assms Write_TimerError [of ct val byte s s'] by simp
next
  case EvTick
  then show ?thesis using assms(2) ScheduleTimer_carried
    by (auto simp add: ClockTimer_def Let_def)
next
  case (EvState st)
  then show ?thesis using assms by auto
qed

lemma run_timer_range:
  "0 \<le> sint (TimerError s) \<and> sint (TimerError s) < 32768 \<Longrightarrow> run ct evs s = Some s' \<Longrightarrow>
   0 \<le> sint (TimerError s') \<and> sint (TimerError s') < 32768"
proof (induction evs arbitrary: s)
  case Nil
  then show ?case by simp
next
  case (Cons e evs)
  from Cons.prems(2) obtain s1 where s1: "step ct e s = Some s1" "run ct evs s1 = Some s'"
    by (auto split: option.splits)
  from step_timer_range [OF Cons.prems(1) s1(1)] Cons.IH [OF _ s1(2)] show ?case by blast
qed

lemma tick_delays_one_second:
  assumes "0 \<le> sint (TimerError s)" and "sint (TimerError s) < 32768"
  shows "(\<Sum>d\<leftarrow>tick_delays 32768 s. sint d) = 33513982"
  using assms tick_delays_sum [of s 32768] by simp

lemma ScheduleTimer_False_carry:
  assumes "0 \<le> sint (TimerError s)" and "sint (TimerError s) < 32768"
  shows "sint (TimerError (snd (ScheduleTimer False s))) =
           (33513982 + sint (TimerError s)) mod 32768"
  using assms by (simp add: ScheduleTimer_False_error sint_and_7FFF sint_sysclock)

text \<open>
  Claim C1: the error that \<open>ScheduleTimer\<close> carries from one invocation to the next is
  \<open>sysclock & 0x7FFF\<close>, a value from 0 to 32767, and so is \<open>TimerError\<close> in every state
  that host events reach from the zero-initialised globals. For every such carried error
  the delays returned over 32768 consecutive ticks add up to exactly 33513982 host
  cycles. A cold start (\<open>first = true\<close>) behaves as an ordinary reschedule from a zeroed
  accumulator; an ordinary reschedule does not zero it, it carries the remainder of
  \<open>33513982 + TimerError\<close> modulo 32768 on.
\<close>

theorem drift_sum_one_second:
  "(0 \<le> sint (TimerError s) \<and> sint (TimerError s) < 32768 \<longrightarrow>
      (\<Sum>d\<leftarrow>tick_delays 32768 s. sint d) = 33513982 \<and>
      sint (TimerError (snd (ScheduleTimer False s))) =
        (33513982 + sint (TimerError s)) mod 32768) \<and>
   ScheduleTimer True s = ScheduleTimer False (s\<lparr>TimerError := 0\<rparr>) \<and>
   0 \<le> sint (TimerError (snd (ScheduleTimer first s))) \<and>
   sint (TimerError (snd (ScheduleTimer first s))) < 32768 \<and>
   (run ct evs rtc_zero = Some s \<longrightarrow>
      0 \<le> sint (TimerError s) \<and> sint (TimerError s) < 32768 \<and>
      (\<Sum>d\<leftarrow>tick_delays 32768 s. sint d) = 33513982)"
proof -
  have sum: "0 \<le> sint (TimerError s) \<and> sint (TimerError s) < 32768 \<Longrightarrow>
      (\<Sum>d\<leftarrow>tick_delays 32768 s. sint d) = 33513982"
    by (simp add: tick_delays_one_second)
  have carry: "0 \<le> sint (TimerError s) \<and> sint (TimerError s) < 32768 \<Longrightarrow>
      sint (TimerError (snd (ScheduleTimer False s))) =
        (33513982 + sint (TimerError s)) mod 32768"
    by (simp add: ScheduleTimer_False_carry)
  have cold: "ScheduleTimer True s = ScheduleTimer False (s\<lparr>TimerError := 0\<rparr>)"
    by (simp add: ScheduleTimer_def)
  have z: "0 \<le> sint (TimerError rtc_zero) \<and> sint (TimerError rtc_zero) < 32768"
    by (simp add: rtc_zero_def)
  have reach: "run ct evs rtc_zero = Some s \<Longrightarrow>
      0 \<le> sint (TimerError s) \<and> sint (TimerError s) < 32768"
    by (rule run_timer_range [OF z])
  from sum carry cold ScheduleTimer_carried [of first s] reach show ?thesis by blast
qed

text \<open>
  After a reset and one tick the carried error is 17404; the next 32768 delays add up to
  one second.
\<close>

lemma run_reset_tick:
  "run 0 [EvReset, EvTick] rtc_zero =
     Some (rtc_zero\<lparr>TimerError := 17404, ClockCount := 1\<rparr>)"
  by (simp add: Reset_def ClockTimer_def ScheduleTimer_def rtc_zero_def Let_def)

theorem drift_sum_one_second_witness:
  "run 0 [EvReset, EvTick] rtc_zero =
     Some (rtc_zero\<lparr>TimerError := 17404, ClockCount := 1\<rparr>) \<and>
   (\<Sum>d\<leftarrow>tick_delays 32768 (rtc_zero\<lparr>TimerError := 17404, ClockCount := 1\<rparr>). sint d) =
     33513982 \<and>
   (\<Sum>d\<leftarrow>tick_delays 32768 (rtc_zero\<lparr>TimerError := 25086\<rparr>). sint d) = 33513982 \<and>
   sint (TimerError (snd (ScheduleTimer False (rtc_zero\<lparr>TimerError := 25086\<rparr>)))) = 17404"
proof -
  let ?s1 = "rtc_zero\<lparr>TimerError := 17404, ClockCount := 1\<rparr>"
  let ?s2 = "rtc_zero\<lparr>TimerError := 25086\<rparr>"
  have "run 0 [EvReset, EvTick] rtc_zero = Some ?s1 \<longrightarrow>
      (\<Sum>d\<leftarrow>tick_delays 32768 ?s1. sint d) = 33513982"
    using drift_sum_one_second [of ?s1 False 0 "[EvReset, EvTick]"] by blast
  then have a: "(\<Sum>d\<leftarrow>tick_delays 32768 ?s1. sint d) = 33513982"
    using run_reset_tick by blast
  have "0 \<le> sint (TimerError ?s2) \<and> sint (TimerError ?s2) < 32768 \<longrightarrow>
      (\<Sum>d\<leftarrow>tick_delays 32768 ?s2. sint d) = 33513982 \<and>
      sint (TimerError (snd (ScheduleTimer False ?s2))) =
        (33513982 + sint (TimerError ?s2)) mod 32768"
    using drift_sum_one_second [of ?s2 False 0 "[]"] by blast
  then have b: "(\<Sum>d\<leftarrow>tick_delays 32768 ?s2. sint d) = 33513982 \<and>
      sint (TimerError (snd (ScheduleTimer False ?s2))) = 17404"
    by simp
  from run_reset_tick a b show ?thesis by blast
qed

section \<open>Month lengths\<close>

lemma leap_test:
  "\<forall>y::u8. (((uint y AND 0xF) + (drop_bit 4 (uint y)) * 10) AND 3 = 0) = (4 dvd bcd_decode y)"
  unfolding u8_split nibbles_def by (simp add: bcd_decode_def)

lemma month_cases:
  assumes "1 \<le> m" "m \<le> 12"
  shows "m = 1 \<or> m = 2 \<or> m = 3 \<or> m = 4 \<or> m = 5 \<or> m = 6 \<or> m = 7 \<or> m = 8 \<or> m = 9 \<or>
         m = 10 \<or> m = 11 \<or> m = (12::nat)"
  using assms by arith

lemma DaysInMonth_Feb:
  "DateTime st ! 1 = 0x02 \<Longrightarrow>
   DaysInMonth st = (if 4 dvd bcd_decode (DateTime st ! 0) then 0x29 else 0x28)"
  using leap_test by (simp add: DaysInMonth_def Let_def)

text \<open>
  Claim C5: whatever the year byte, \<open>DaysInMonth\<close> gives February 29 days exactly when
  the decimal reading of the year byte is divisible by 4 and 28 days otherwise; every
  other month has its length from the standard table. The result is a valid BCD byte and
  is read in decimal here; the month is the BCD encoding of a number from 1 to 12.
\<close>

theorem DaysInMonth_table:
  assumes "1 \<le> m" and "m \<le> 12" and "DateTime st ! 1 = BCD (of_nat m)"
  shows "bcd_valid (DaysInMonth st) \<and>
         bcd_decode (DaysInMonth st) =
           (if m = 2 then (if 4 dvd bcd_decode (DateTime st ! 0) then 29 else 28)
            else month_length m)"
proof -
  consider "m = 2" | "m \<noteq> 2" by blast
  then show ?thesis
  proof cases
    case 1
    then have "DateTime st ! 1 = 0x02" using assms(3) by (simp add: BCD_def)
    then show ?thesis using 1
      by (simp add: DaysInMonth_Feb bcd_valid_def bcd_decode_def)
  next
    case 2
    then have "m = 1 \<or> m = 3 \<or> m = 4 \<or> m = 5 \<or> m = 6 \<or> m = 7 \<or> m = 8 \<or> m = 9 \<or>
         m = 10 \<or> m = 11 \<or> m = 12" using month_cases [OF assms(1,2)] by simp
    then show ?thesis using assms(3)
      by (elim disjE)
         (simp_all add: BCD_def DaysInMonth_def bcd_valid_def bcd_decode_def month_length_def)
  qed
qed

text \<open>February with the year bytes 0x24 and 0x23, and April.\<close>

theorem DaysInMonth_table_witness:
  "DaysInMonth (ResetState\<lparr>DateTime := [0x24, 0x02, 1, 0, 0, 0, 0]\<rparr>) = 0x29 \<and>
   bcd_decode (DaysInMonth (ResetState\<lparr>DateTime := [0x24, 0x02, 1, 0, 0, 0, 0]\<rparr>)) = 29 \<and>
   DaysInMonth (ResetState\<lparr>DateTime := [0x23, 0x02, 1, 0, 0, 0, 0]\<rparr>) = 0x28 \<and>
   bcd_decode (DaysInMonth (ResetState\<lparr>DateTime := [0x23, 0x02, 1, 0, 0, 0, 0]\<rparr>)) = 28 \<and>
   bcd_decode (DaysInMonth (ResetState\<lparr>DateTime := [0x23, 0x04, 1, 0, 0, 0, 0]\<rparr>)) = 30"
  using DaysInMonth_table [of 2 "ResetState\<lparr>DateTime := [0x24, 0x02, 1, 0, 0, 0, 0]\<rparr>"]
        DaysInMonth_table [of 2 "ResetState\<lparr>DateTime := [0x23, 0x02, 1, 0, 0, 0, 0]\<rparr>"]
        DaysInMonth_table [of 4 "ResetState\<lparr>DateTime := [0x23, 0x04, 1, 0, 0, 0, 0]\<rparr>"]
  by (simp add: BCD_def bcd_decode_def month_length_def DaysInMonth_def)

section \<open>Sanitization of date and time writes\<close>

lemma BCDSanitize_spec_all:
  "\<forall>v. list_all (\<lambda>(lo, hi). BCDSanitize v lo hi = bcdSanitize_spec v lo hi) sanitize_bounds"
  unfolding u8_split nibbles_def
  by (simp add: byte_eval bcdSanitize_spec_def sanitize_bounds_def)

lemma BCDSanitize_spec_eq:
  "(lo, hi) \<in> set sanitize_bounds \<Longrightarrow> BCDSanitize v lo hi = bcdSanitize_spec v lo hi"
  using BCDSanitize_spec_all by (auto simp add: list_all_iff)

lemma hour24_field:
  "\<forall>v. (BCDSanitize (v AND 0x3F) 0x00 0x23 OR
          (if BCDSanitize (v AND 0x3F) 0x00 0x23 \<ge> 0x12 then 0x40 else 0)) AND 0x3F =
        BCDSanitize (v AND 0x3F) 0x00 0x23"
  unfolding u8_split nibbles_def by (simp add: byte_eval)

lemma hour12_field:
  "\<forall>v. (BCDSanitize (v AND 0x3F) 0x00 0x11 OR (v AND 0x40)) AND 0x3F =
        BCDSanitize (v AND 0x3F) 0x00 0x11"
  unfolding u8_split nibbles_def by (simp add: byte_eval)

lemma in_sanitize_bounds:
  "(0x00, 0x99) \<in> set sanitize_bounds" "(0x01, 0x12) \<in> set sanitize_bounds"
  "(0x01, 0x31) \<in> set sanitize_bounds" "(0x00, 0x06) \<in> set sanitize_bounds"
  "(0x00, 0x23) \<in> set sanitize_bounds" "(0x00, 0x11) \<in> set sanitize_bounds"
  "(0x00, 0x59) \<in> set sanitize_bounds"
  by (simp_all add: sanitize_bounds_def)

lemmas BCDSanitize_spec_simps = in_sanitize_bounds [THEN BCDSanitize_spec_eq]

text \<open>
  Claim C7, as stated, has every out-of-range byte written to a date/time field clamped
  to the field's minimum. The write path masks the byte to the bits the field implements
  before it sanitizes: the month byte 0x32 (valid BCD, decimal 32, outside 1..12) is
  stored as 0x12, December, and not as the minimum 0x01.
\<close>

theorem month_write_0x32_counterexample:
  "bcd_valid 0x32 \<and> bcd_decode 0x32 = 32 \<and> bcd_decode 0x12 = 12 \<and>
   bcdSanitize_spec 0x32 0x01 0x12 = 0x01 \<and>
   DateTime (WriteDateTime 2 0x32 ResetState) ! 1 = 0x12"
  by (simp add: bcd_valid_def bcd_decode_def bcdSanitize_spec_def WriteDateTime_def
        ResetState_def BCDSanitize_def)

text \<open>
  Claim C7, amended: for every byte and every bound pair of the write path,
  \<open>BCDSanitize\<close> returns the minimum exactly when the decimal reading of the byte is
  outside the bounds or one of its nibbles exceeds 9, and the byte itself otherwise.
  \<open>WriteDateTime\<close> applies it to the written byte masked to the bits of the field (no mask
  for the year, 0x1F for the month, 0x3F for day and hour, 0x07 for the day of week, 0x7F for
  minute and second) and stores the result: a masked value that is out of range or not BCD
  is stored as the field's minimum, and the write always yields a register file. The day
  goes through the end-of-month check after that, and the hour byte carries the AM/PM flag
  above the six bits of the hour.
\<close>

theorem WriteDateTime_sanitizes:
  assumes "length (DateTime st) = 7"
  shows "(\<forall>(lo, hi) \<in> set sanitize_bounds. BCDSanitize v lo hi = bcdSanitize_spec v lo hi) \<and>
         DateTime (WriteDateTime 1 val st) ! 0 = bcdSanitize_spec val 0x00 0x99 \<and>
         DateTime (WriteDateTime 2 val st) ! 1 = bcdSanitize_spec (val AND 0x1F) 0x01 0x12 \<and>
         WriteDateTime 3 val st =
           CheckEndOfMonth
             (st\<lparr>DateTime := (DateTime st)[2 := bcdSanitize_spec (val AND 0x3F) 0x01 0x31]\<rparr>) \<and>
         DateTime (WriteDateTime 4 val st) ! 3 = bcdSanitize_spec (val AND 0x07) 0x00 0x06 \<and>
         DateTime (WriteDateTime 5 val st) ! 4 AND 0x3F =
           bcdSanitize_spec (val AND 0x3F) 0x00
             (if StatusReg1 st AND 2 \<noteq> 0 then 0x23 else 0x11) \<and>
         DateTime (WriteDateTime 6 val st) ! 5 = bcdSanitize_spec (val AND 0x7F) 0x00 0x59 \<and>
         DateTime (WriteDateTime 7 val st) ! 6 = bcdSanitize_spec (val AND 0x7F) 0x00 0x59"
proof -
  have b: "\<forall>(lo, hi) \<in> set sanitize_bounds. BCDSanitize v lo hi = bcdSanitize_spec v lo hi"
    using BCDSanitize_spec_eq by blast
  have w1: "DateTime (WriteDateTime 1 val st) ! 0 = bcdSanitize_spec val 0x00 0x99"
    using assms by (simp add: WriteDateTime_def BCDSanitize_spec_simps)
  have w2: "DateTime (WriteDateTime 2 val st) ! 1 = bcdSanitize_spec (val AND 0x1F) 0x01 0x12"
    using assms by (simp add: WriteDateTime_def BCDSanitize_spec_simps)
  have w3: "WriteDateTime 3 val st =
           CheckEndOfMonth
             (st\<lparr>DateTime := (DateTime st)[2 := bcdSanitize_spec (val AND 0x3F) 0x01 0x31]\<rparr>)"
    by (simp add: WriteDateTime_def BCDSanitize_spec_simps)
  have w4: "DateTime (WriteDateTime 4 val st) ! 3 = bcdSanitize_spec (val AND 0x07) 0x00 0x06"
    using assms by (simp add: WriteDateTime_def BCDSanitize_spec_simps)
  have w5: "DateTime (WriteDateTime 5 val st) ! 4 AND 0x3F =
           bcdSanitize_spec (val AND 0x3F) 0x00
             (if StatusReg1 st AND 2 \<noteq> 0 then 0x23 else 0x11)"
  proof (cases "StatusReg1 st AND 2 \<noteq> 0")
    case True
    then show ?thesis using assms hour24_field [rule_format, of val]
      by (simp add: WriteDateTime_def Let_def BCDSanitize_spec_simps [symmetric])
  next
    case False
    then show ?thesis using assms hour12_field [rule_format, of val]
      by (simp add: WriteDateTime_def Let_def BCDSanitize_spec_simps [symmetric])
  qed
  have w6: "DateTime (WriteDateTime 6 val st) ! 5 = bcdSanitize_spec (val AND 0x7F) 0x00 0x59"
    using assms by (simp add: WriteDateTime_def BCDSanitize_spec_simps)
  have w7: "DateTime (WriteDateTime 7 val st) ! 6 = bcdSanitize_spec (val AND 0x7F) 0x00 0x59"
    using assms by (simp add: WriteDateTime_def BCDSanitize_spec_simps)
  from b w1 w2 w3 w4 w5 w6 w7 show ?thesis by (intro conjI)
qed

theorem WriteDateTime_sanitizes_witness:
  "length (DateTime ResetState) = 7 \<and>
   BCDSanitize 0x1A 0x01 0x12 = 0x01 \<and>
   DateTime (WriteDateTime 2 0x13 ResetState) ! 1 = 0x01 \<and>
   DateTime (WriteDateTime 6 0x59 ResetState) ! 5 = 0x59 \<and>
   DateTime (WriteDateTime 5 0x24 ResetState) ! 4 AND 0x3F = 0x00"
  using WriteDateTime_sanitizes [of ResetState "0x1A" "0x13"]
        WriteDateTime_sanitizes [of ResetState "0x1A" "0x59"]
        WriteDateTime_sanitizes [of ResetState "0x1A" "0x24"]
  by (simp add: ResetState_def sanitize_bounds_def bcdSanitize_spec_def bcd_decode_def
        bcd_valid_def)

section \<open>Status register 1 writes\<close>

lemma CmdWrite_status1_dispatch:
  "CurCmd s AND 0x0F = 0x06 \<Longrightarrow> CurCmd s AND 0x70 = 0x00 \<Longrightarrow> InputPos s = 1 \<Longrightarrow>
   CmdWrite ct val s = Some (s\<lparr>State := CmdWrite_status1 val (State s)\<rparr>)"
  by (simp add: CmdWrite_def Let_def)

lemma status1_new_mode: "((a AND 0xF0) OR (v AND 0x0E)) AND 2 = v AND (2::u8)"
  by (simp add: bit.conj_disj_distrib2 and.assoc)

lemma CmdWrite_status1_reset:
  "val AND 1 \<noteq> 0 \<Longrightarrow> CmdWrite_status1 val st = ResetState\<lparr>StatusReg1 := val AND 0x0E\<rparr>"
  by (simp add: CmdWrite_status1_def Let_def ResetState_def status1_hour_24_def
        status1_hour_12_def BCDSanitize_def)

lemma status1_hour_24_range:
  "\<forall>b. bcd_valid (status1_hour_24 b AND 0x3F) \<and> bcd_decode (status1_hour_24 b AND 0x3F) < 24"
  unfolding u8_split nibbles_def by (simp add: byte_eval status1_hour_24_def)

lemma status1_hour_12_range:
  "\<forall>b. bcd_valid (status1_hour_12 b AND 0x3F) \<and> bcd_decode (status1_hour_12 b AND 0x3F) < 12"
  unfolding u8_split nibbles_def by (simp add: byte_eval status1_hour_12_def)

lemma status1_hour_24_conv:
  "\<forall>b. bcd_valid (b AND 0x3F) \<and> bcd_decode (b AND 0x3F) < 12 \<longrightarrow>
       bcd_decode (status1_hour_24 b AND 0x3F) =
         bcd_decode (b AND 0x3F) + (if b AND 0x40 \<noteq> 0 then 12 else 0) \<and>
       status1_hour_24 b AND 0xC0 = b AND 0x40"
  unfolding u8_split nibbles_def by (simp add: byte_eval status1_hour_24_def)

lemma status1_hour_12_conv:
  "\<forall>b. bcd_valid (b AND 0x3F) \<and> bcd_decode (b AND 0x3F) < 24 \<longrightarrow>
       bcd_decode (status1_hour_12 b AND 0x3F) = bcd_decode (b AND 0x3F) mod 12 \<and>
       status1_hour_12 b AND 0xC0 = (if bcd_decode (b AND 0x3F) \<ge> 12 then 0x40 else 0)"
  unfolding u8_split nibbles_def by (simp add: byte_eval status1_hour_12_def)

lemma status1_toggle_any:
  "(((a AND 0xF0) OR (v AND 0x0E)) XOR old) AND 2 = (v XOR old) AND (2::u8)"
  by (simp add: bit.conj_disj_distrib2 bit.conj_xor_distrib2 and.assoc)

lemma status1_hour_zero: "status1_hour_24 0 = 0" "status1_hour_12 0 = 0"
  by (simp_all add: status1_hour_24_def status1_hour_12_def byte_eval)

lemma CmdWrite_status1_switch_any:
  assumes "(val XOR StatusReg1 st) AND 2 \<noteq> 0" and "length (DateTime st) = 7"
  shows "DateTime (CmdWrite_status1 val st) ! 4 =
     (if val AND 2 \<noteq> 0
      then status1_hour_24 (DateTime (if val AND 1 \<noteq> 0 then ResetState else st) ! 4)
      else status1_hour_12 (DateTime (if val AND 1 \<noteq> 0 then ResetState else st) ! 4))"
proof (cases "val AND 1 \<noteq> 0")
  case True
  have z: "DateTime ResetState ! 4 = 0" by (simp add: ResetState_def)
  have "DateTime (CmdWrite_status1 val st) ! 4 = 0"
    using True by (simp add: CmdWrite_status1_reset z)
  then show ?thesis using True by (simp add: z status1_hour_zero)
next
  case False
  then show ?thesis using assms
    by (simp add: CmdWrite_status1_def Let_def status1_new_mode status1_toggle_any)
qed

lemma mode_switch_bytes:
  assumes "b' = (if val AND 2 \<noteq> 0 then status1_hour_24 b else status1_hour_12 b)"
  shows "bcd_valid (b' AND 0x3F) \<and>
         bcd_decode (b' AND 0x3F) < (if val AND 2 \<noteq> 0 then 24 else 12) \<and>
         (val AND 2 \<noteq> 0 \<and> bcd_valid (b AND 0x3F) \<and> bcd_decode (b AND 0x3F) < 12 \<longrightarrow>
            bcd_decode (b' AND 0x3F) =
              bcd_decode (b AND 0x3F) + (if b AND 0x40 \<noteq> 0 then 12 else 0) \<and>
            b' AND 0xC0 = b AND 0x40) \<and>
         (val AND 2 = 0 \<and> bcd_valid (b AND 0x3F) \<and> bcd_decode (b AND 0x3F) < 24 \<longrightarrow>
            bcd_decode (b' AND 0x3F) = bcd_decode (b AND 0x3F) mod 12 \<and>
            b' AND 0xC0 = (if bcd_decode (b AND 0x3F) \<ge> 12 then 0x40 else 0))"
proof (cases "val AND 2 \<noteq> 0")
  case True
  then show ?thesis
    using status1_hour_24_range [rule_format, of b] status1_hour_24_conv [rule_format, of b]
    by (simp add: assms)
next
  case False
  then show ?thesis
    using status1_hour_12_range [rule_format, of b] status1_hour_12_conv [rule_format, of b]
    by (simp add: assms)
qed

text \<open>
  Claim C2, as stated, has the stored hour byte equal to 0x21 after a write that switches
  to 24-hour mode. With the hour byte 0x49 (hour 0x09, PM flag) in 12-hour mode, the
  status-1 write 0x02 adds 0x12 with the decimal correction and keeps the PM flag: the
  stored byte is 0x61. The write 0x03 switches the mode as well, but its reset bit
  reinitializes the register file first: the stored byte is 0x00.
\<close>

theorem status1_hour_0x49_counterexample:
  "StatusReg1 (ResetState\<lparr>DateTime := [0, 1, 1, 0, 0x49, 0, 0]\<rparr>) AND 2 = 0 \<and>
   CmdWrite 0 0x02 (in_session 0x06 1 (ResetState\<lparr>DateTime := [0, 1, 1, 0, 0x49, 0, 0]\<rparr>)) =
     Some (in_session 0x06 1
             (ResetState\<lparr>StatusReg1 := 0x02, DateTime := [0, 1, 1, 0, 0x61, 0, 0]\<rparr>)) \<and>
   (0x61::u8) \<noteq> 0x21 \<and>
   CmdWrite 0 0x03 (in_session 0x06 1 (ResetState\<lparr>DateTime := [0, 1, 1, 0, 0x49, 0, 0]\<rparr>)) =
     Some (in_session 0x06 1
             (ResetState\<lparr>StatusReg1 := 0x02, DateTime := [0, 1, 1, 0, 0x00, 0, 0]\<rparr>)) \<and>
   (0x00::u8) \<noteq> 0x21"
  by (simp add: CmdWrite_def in_session_def rtc_zero_def ResetState_def CmdWrite_status1_def
        status1_hour_24_def byte_eval)

text \<open>
  Claim C2, amended: a status-1 write that changes the 12/24-hour bit reinterprets the
  current hour byte in the same write; the current byte is the stored one when the write
  has no reset bit, and the byte 0x00 of the freshly reset register file when it has.
  The hour field (the low six bits) of the result is valid BCD inside the range of the
  new mode, whatever the current byte was. From a valid 12-hour value the 24-hour field
  reads 12 more when the PM flag is set and the same otherwise, and the flag stays as it
  was: without the reset bit, hour 0x09 with PM gives the field 0x21 in the byte 0x61.
  From a valid 24-hour value the 12-hour field reads the hour modulo 12 and the PM flag
  is set exactly from 12 on.
\<close>

theorem status1_mode_switch:
  assumes cmd: "CurCmd s AND 0x0F = 0x06" "CurCmd s AND 0x70 = 0x00" "InputPos s = 1"
    and len: "length (DateTime (State s)) = 7"
    and toggled: "(val XOR StatusReg1 (State s)) AND 2 \<noteq> 0"
  shows "CmdWrite ct val s = Some (s\<lparr>State := CmdWrite_status1 val (State s)\<rparr>) \<and>
         (let b = DateTime (if val AND 1 \<noteq> 0 then ResetState else State s) ! 4;
              b' = DateTime (CmdWrite_status1 val (State s)) ! 4 in
            (val AND 1 \<noteq> 0 \<longrightarrow> b = 0x00 \<and> b' = 0x00) \<and>
            bcd_valid (b' AND 0x3F) \<and>
            bcd_decode (b' AND 0x3F) < (if val AND 2 \<noteq> 0 then 24 else 12) \<and>
            (val AND 2 \<noteq> 0 \<and> bcd_valid (b AND 0x3F) \<and> bcd_decode (b AND 0x3F) < 12 \<longrightarrow>
               bcd_decode (b' AND 0x3F) =
                 bcd_decode (b AND 0x3F) + (if b AND 0x40 \<noteq> 0 then 12 else 0) \<and>
               b' AND 0xC0 = b AND 0x40) \<and>
            (val AND 2 = 0 \<and> bcd_valid (b AND 0x3F) \<and> bcd_decode (b AND 0x3F) < 24 \<longrightarrow>
               bcd_decode (b' AND 0x3F) = bcd_decode (b AND 0x3F) mod 12 \<and>
               b' AND 0xC0 = (if bcd_decode (b AND 0x3F) \<ge> 12 then 0x40 else 0)))"
proof -
  let ?b = "DateTime (if val AND 1 \<noteq> 0 then ResetState else State s) ! 4"
  let ?b' = "DateTime (CmdWrite_status1 val (State s)) ! 4"
  have w: "CmdWrite ct val s = Some (s\<lparr>State := CmdWrite_status1 val (State s)\<rparr>)"
    by (rule CmdWrite_status1_dispatch [OF cmd])
  have b': "?b' = (if val AND 2 \<noteq> 0 then status1_hour_24 ?b else status1_hour_12 ?b)"
    by (rule CmdWrite_status1_switch_any [OF toggled len])
  have r: "val AND 1 \<noteq> 0 \<longrightarrow> ?b = 0x00 \<and> ?b' = 0x00"
    by (simp add: CmdWrite_status1_reset) (simp add: ResetState_def)
  show ?thesis
    unfolding Let_def by (rule conjI [OF w conjI [OF r mode_switch_bytes [OF b']]])
qed

theorem status1_mode_switch_witness:
  "CmdWrite 0 0x02 (in_session 0x06 1 (ResetState\<lparr>DateTime := [0, 1, 1, 0, 0x49, 0, 0]\<rparr>)) =
     Some (in_session 0x06 1
             (ResetState\<lparr>StatusReg1 := 0x02, DateTime := [0, 1, 1, 0, 0x61, 0, 0]\<rparr>)) \<and>
   bcd_decode (0x61 AND 0x3F) = 21 \<and> bcd_decode (0x49 AND 0x3F) = 9 \<and>
   CmdWrite 0 0x03 (in_session 0x06 1 (ResetState\<lparr>DateTime := [0, 1, 1, 0, 0x49, 0, 0]\<rparr>)) =
     Some (in_session 0x06 1
             (ResetState\<lparr>StatusReg1 := 0x02, DateTime := [0, 1, 1, 0, 0x00, 0, 0]\<rparr>))"
  using status1_mode_switch
    [of "in_session 0x06 1 (ResetState\<lparr>DateTime := [0, 1, 1, 0, 0x49, 0, 0]\<rparr>)" "0x02" 0]
    status1_mode_switch
    [of "in_session 0x06 1 (ResetState\<lparr>DateTime := [0, 1, 1, 0, 0x49, 0, 0]\<rparr>)" "0x03" 0]
  by (simp add: in_session_def rtc_zero_def ResetState_def CmdWrite_status1_def
        status1_hour_24_def byte_eval)




section \<open>Day writes and the end of the month\<close>

lemma CmdWrite_day_dispatch:
  "CurCmd s AND 0x0F = 0x06 \<Longrightarrow> CurCmd s AND 0x70 = 0x20 \<Longrightarrow> InputPos s = 3 \<Longrightarrow>
   CmdWrite ct val s = Some (s\<lparr>State := WriteDateTime 3 val (State s)\<rparr>)"
  by (simp add: CmdWrite_def Let_def)

lemma DaysInMonth_day: "DaysInMonth (st\<lparr>DateTime := (DateTime st)[2 := d]\<rparr>) = DaysInMonth st"
  by (simp add: DaysInMonth_def Let_def)

lemma WriteDateTime_day:
  assumes "length (DateTime st) = 7"
  shows "WriteDateTime 3 val st =
     (let d = BCDSanitize (val AND 0x3F) 0x01 0x31;
          m = DateTime st ! 1; y = DateTime st ! 0
      in if d > DaysInMonth st
         then (if BCDIncrement m > 0x12
               then st\<lparr>DateTime := (DateTime st)[2 := 1, 1 := 1, 0 := BCDIncrement y]\<rparr>
               else st\<lparr>DateTime := (DateTime st)[2 := 1, 1 := BCDIncrement m]\<rparr>)
         else st\<lparr>DateTime := (DateTime st)[2 := d]\<rparr>)"
  using assms
  by (simp add: WriteDateTime_def CheckEndOfMonth_def CountMonth_def CountYear_def Let_def
        DaysInMonth_day)

text \<open>
  Claim C6: a byte written to the day field through the command processor (date/time
  group, third data byte) is sanitized first, and the end-of-month check runs in the same
  write: when the sanitized day exceeds the day count of the current month, the day
  becomes 1 and the month takes one BCD increment, which beyond 0x12 wraps to 1 and
  increments the year; otherwise the sanitized day is stored. Nothing but these three
  bytes of the register file changes.
\<close>

theorem day_write_rollover:
  assumes cmd: "CurCmd s AND 0x0F = 0x06" "CurCmd s AND 0x70 = 0x20" "InputPos s = 3"
    and len: "length (DateTime (State s)) = 7"
  shows "CmdWrite ct val s = Some (s\<lparr>State := WriteDateTime 3 val (State s)\<rparr>) \<and>
         (let st = State s; st' = WriteDateTime 3 val st;
              d = BCDSanitize (val AND 0x3F) 0x01 0x31;
              m = DateTime st ! 1; y = DateTime st ! 0;
              over = (d > DaysInMonth st)
          in DateTime st' ! 2 = (if over then 1 else d) \<and>
             DateTime st' ! 1 =
               (if over then (if BCDIncrement m > 0x12 then 1 else BCDIncrement m) else m) \<and>
             DateTime st' ! 0 = (if over \<and> BCDIncrement m > 0x12 then BCDIncrement y else y) \<and>
             drop 3 (DateTime st') = drop 3 (DateTime st) \<and>
             length (DateTime st') = 7 \<and>
             st'\<lparr>DateTime := DateTime st\<rparr> = st)"
  using len
  by (simp add: CmdWrite_day_dispatch [OF cmd] WriteDateTime_day Let_def)


text \<open>The day 0x31 written in April 2023: the first of May.\<close>

lemma WriteDateTime_day_0x31_April:
  "WriteDateTime 3 0x31 (ResetState\<lparr>DateTime := [0x23, 0x04, 1, 0, 0, 0, 0]\<rparr>) =
   ResetState\<lparr>DateTime := [0x23, 0x05, 1, 0, 0, 0, 0]\<rparr>"
  by (simp add: ResetState_def WriteDateTime_def CheckEndOfMonth_def
        CountMonth_def DaysInMonth_def BCDIncrement_def byte_eval)

theorem day_write_rollover_witness:
  "CmdWrite 0 0x31 (in_session 0x26 3 (ResetState\<lparr>DateTime := [0x23, 0x04, 1, 0, 0, 0, 0]\<rparr>)) =
     Some (in_session 0x26 3 (ResetState\<lparr>DateTime := [0x23, 0x05, 1, 0, 0, 0, 0]\<rparr>))"
proof -
  let ?st = "ResetState\<lparr>DateTime := [0x23, 0x04, 1, 0, 0, 0, 0]\<rparr>"
  let ?s = "in_session 0x26 3 ?st"
  have c: "CurCmd ?s AND 0x0F = 0x06" "CurCmd ?s AND 0x70 = 0x20" "InputPos ?s = 3"
    "length (DateTime (State ?s)) = 7"
    by (simp_all add: in_session_def rtc_zero_def ResetState_def)
  have "CmdWrite 0 0x31 ?s = Some (?s\<lparr>State := WriteDateTime 3 0x31 (State ?s)\<rparr>)"
    using day_write_rollover [OF c, of 0 "0x31"] by (rule conjunct1)
  moreover have "State ?s = ?st" by (simp add: in_session_def)
  ultimately show ?thesis
    by (simp only: WriteDateTime_day_0x31_April) (simp add: in_session_def)
qed

section \<open>Hour carry\<close>

lemma set_hour_simps:
  "StatusReg1 (set_hour v st) = StatusReg1 st"
  "length (DateTime (set_hour v st)) = length (DateTime st)"
  "set_hour v (set_hour w st) = set_hour v st"
  "set_hour (DateTime st ! 4) st = st"
  by (simp_all add: set_hour_def)

lemma set_hour_nth: "length (DateTime st) = 7 \<Longrightarrow> DateTime (set_hour v st) ! 4 = v"
  by (simp add: set_hour_def)

lemma hour_update_swap:
  "xs[4 := v, 0 := w] = xs[0 := w, 4 := v]"
  "xs[4 := v, 1 := w] = xs[1 := w, 4 := v]"
  "xs[4 := v, Suc 0 := w] = xs[Suc 0 := w, 4 := v]"
  "xs[4 := v, 2 := w] = xs[2 := w, 4 := v]"
  "xs[4 := v, 3 := w] = xs[3 := w, 4 := v]"
  by (simp_all add: list_update_swap)

lemma CountYear_set_hour: "CountYear (set_hour v st) = set_hour v (CountYear st)"
  by (simp add: CountYear_def set_hour_def hour_update_swap)

lemma CountMonth_set_hour:
  "length (DateTime st) = 7 \<Longrightarrow> CountMonth (set_hour v st) = set_hour v (CountMonth st)"
  by (simp add: CountMonth_def CountYear_def set_hour_def hour_update_swap Let_def)

lemma CheckEndOfMonth_set_hour:
  assumes "length (DateTime st) = 7"
  shows "CheckEndOfMonth (set_hour v st) = set_hour v (CheckEndOfMonth st)"
proof -
  have d: "DaysInMonth (set_hour v st) = DaysInMonth st"
    by (simp add: set_hour_def DaysInMonth_def Let_def)
  have s: "set_hour v st\<lparr>DateTime := (DateTime (set_hour v st))[2 := 1]\<rparr> =
           set_hour v (st\<lparr>DateTime := (DateTime st)[2 := 1]\<rparr>)"
    by (simp add: set_hour_def hour_update_swap)
  have n: "DateTime (set_hour v st) ! 2 = DateTime st ! 2" by (simp add: set_hour_def)
  show ?thesis
    unfolding CheckEndOfMonth_def d s n using assms by (simp add: CountMonth_set_hour)
qed

lemma CountDay_set_hour:
  assumes "length (DateTime st) = 7"
  shows "CountDay (set_hour v st) = set_hour v (CountDay st)"
proof -
  have n: "DateTime (set_hour v st) ! 3 = DateTime st ! 3" by (simp add: set_hour_def)
  have "CountDay (set_hour v st) =
        CheckEndOfMonth (set_hour v
          (let dow1 = DateTime st ! 3 + 1;
               dow = (if dow1 \<ge> 7 then 0 else dow1);
               st1 = st\<lparr>DateTime := (DateTime st)[3 := dow]\<rparr>
           in st1\<lparr>DateTime := (DateTime st1)[2 := BCDIncrement (DateTime st1 ! 2)]\<rparr>))"
    by (simp add: CountDay_def Let_def set_hour_def hour_update_swap)
  also have "\<dots> = set_hour v (CountDay st)"
    using assms by (simp add: CheckEndOfMonth_set_hour CountDay_def Let_def)
  finally show ?thesis .
qed

lemma CountYear_frame:
  "StatusReg1 (CountYear st) = StatusReg1 st" "length (DateTime (CountYear st)) = length (DateTime st)"
  by (simp_all add: CountYear_def)

lemma CountMonth_frame:
  "StatusReg1 (CountMonth st) = StatusReg1 st" "length (DateTime (CountMonth st)) = length (DateTime st)"
  by (simp_all add: CountMonth_def Let_def CountYear_frame)

lemma CheckEndOfMonth_frame:
  "StatusReg1 (CheckEndOfMonth st) = StatusReg1 st"
  "length (DateTime (CheckEndOfMonth st)) = length (DateTime st)"
  by (simp_all add: CheckEndOfMonth_def CountMonth_frame)

lemma CountDay_frame:
  "StatusReg1 (CountDay st) = StatusReg1 st" "length (DateTime (CountDay st)) = length (DateTime st)"
  by (simp_all add: CountDay_def Let_def CheckEndOfMonth_frame)


lemma hours_all: "(\<forall>t<24. P t) \<longleftrightarrow> list_all P day_hours"
proof -
  have "set day_hours = {..<24}"
    unfolding day_hours_def by (simp add: lessThan_nat_numeral lessThan_Suc insert_commute)
  then show ?thesis by (auto simp add: list_all_iff)
qed

lemmas hour_eval =
  hour_byte_def BCD_def BCDIncrement_def Let_def word_le_nat_alt word_less_nat_alt

lemma hour_step_24:
  "\<forall>t<24. (let hour = BCDIncrement (hour_byte True t AND 0x3F);
                hour1 = (if hour \<ge> 0x24 then 0 else hour)
            in (hour \<ge> 0x24 \<longleftrightarrow> t = 23) \<and>
               hour1 OR (if hour1 \<ge> 0x12 then 0x40 else 0) = hour_byte True ((t + 1) mod 24))"
  unfolding hours_all day_hours_def by (simp add: hour_eval)

lemma hour_step_12:
  "\<forall>t<24. (let b = hour_byte False t;
                hour = BCDIncrement (b AND 0x3F);
                pm = b AND 0x40
            in (hour \<ge> 0x12 \<and> pm \<noteq> 0 \<longleftrightarrow> t = 23) \<and>
               (if hour \<ge> 0x12 then 0 OR (pm XOR 0x40) else hour OR pm) =
                 hour_byte False ((t + 1) mod 24))"
  unfolding hours_all day_hours_def by (simp add: hour_eval)

lemma CountHour_24:
  "StatusReg1 st AND 2 \<noteq> 0 \<Longrightarrow>
   CountHour st =
     (let hour = BCDIncrement (DateTime st ! 4 AND 0x3F);
          hour1 = (if hour \<ge> 0x24 then 0 else hour)
      in set_hour (hour1 OR (if hour1 \<ge> 0x12 then 0x40 else 0))
           (if hour \<ge> 0x24 then CountDay st else st))"
  by (simp add: CountHour_def Let_def set_hour_def)

lemma CountHour_12:
  "StatusReg1 st AND 2 = 0 \<Longrightarrow>
   CountHour st =
     (let b = DateTime st ! 4;
          hour = BCDIncrement (b AND 0x3F);
          pm = b AND 0x40
      in set_hour (if hour \<ge> 0x12 then 0 OR (pm XOR 0x40) else hour OR pm)
           (if hour \<ge> 0x12 \<and> pm \<noteq> 0 then CountDay st else st))"
  by (simp add: CountHour_def Let_def set_hour_def)

lemma CountHour_step:
  assumes "t < 24" and "DateTime st ! 4 = hour_byte (StatusReg1 st AND 2 \<noteq> 0) t"
  shows "CountHour st =
           set_hour (hour_byte (StatusReg1 st AND 2 \<noteq> 0) ((t + 1) mod 24))
             (if t = 23 then CountDay st else st)"
proof (cases "StatusReg1 st AND 2 \<noteq> 0")
  case True
  then have b: "DateTime st ! 4 = hour_byte True t" using assms(2) by simp
  note h = hour_step_24 [rule_format, OF assms(1), unfolded Let_def]
  have "CountHour st = set_hour (hour_byte True ((t + 1) mod 24)) (if t = 23 then CountDay st else st)"
    unfolding CountHour_24 [OF True] Let_def b
    by (simp only: h [THEN conjunct2]) (simp only: h [THEN conjunct1])
  then show ?thesis using True by simp
next
  case False
  then have b: "DateTime st ! 4 = hour_byte False t" using assms(2) by simp
  from False have m: "StatusReg1 st AND 2 = 0" by simp
  note h = hour_step_12 [rule_format, OF assms(1), unfolded Let_def]
  have "CountHour st = set_hour (hour_byte False ((t + 1) mod 24)) (if t = 23 then CountDay st else st)"
    unfolding CountHour_12 [OF m] Let_def b
    by (simp only: h [THEN conjunct2]) (simp only: h [THEN conjunct1])
  then show ?thesis using False by simp
qed

lemma CountHour_iter:
  assumes len: "length (DateTime st) = 7" and t: "t < 24"
    and b: "DateTime st ! 4 = hour_byte (StatusReg1 st AND 2 \<noteq> 0) t"
  shows "k \<le> 24 \<Longrightarrow>
         (CountHour ^^ k) st =
           set_hour (hour_byte (StatusReg1 st AND 2 \<noteq> 0) ((t + k) mod 24))
             (if t + k \<ge> 24 then CountDay st else st)"
proof (induction k)
  case 0
  then show ?case using t b set_hour_simps(4) [of st] by simp
next
  case (Suc k)
  let ?m = "StatusReg1 st AND 2 \<noteq> 0"
  let ?X = "if t + k \<ge> 24 then CountDay st else st"
  let ?sk = "set_hour (hour_byte ?m ((t + k) mod 24)) ?X"
  have k: "(CountHour ^^ k) st = ?sk" using Suc by simp
  have lenX: "length (DateTime ?X) = 7" using len by (simp add: CountDay_frame)
  have mX: "(StatusReg1 ?sk AND 2 \<noteq> 0) = ?m" by (simp add: set_hour_simps CountDay_frame)
  have bk: "DateTime ?sk ! 4 = hour_byte (StatusReg1 ?sk AND 2 \<noteq> 0) ((t + k) mod 24)"
    unfolding mX using lenX by (rule set_hour_nth)
  have "(t + k) mod 24 < 24" by simp
  from CountHour_step [OF this bk]
  have step: "CountHour ?sk =
      set_hour (hour_byte ?m (((t + k) mod 24 + 1) mod 24))
        (if (t + k) mod 24 = 23 then CountDay ?sk else ?sk)"
    unfolding mX .
  have idx: "((t + k) mod 24 + 1) mod 24 = (t + Suc k) mod 24"
    by (simp add: mod_Suc_eq)
  have wrap: "(t + k) mod 24 = 23 \<longleftrightarrow> t + k = 23"
  proof (cases "t + k < 24")
    case True
    then show ?thesis by simp
  next
    case False
    then have "(t + k) mod 24 = (t + k - 24) mod 24" by (simp add: le_mod_geq)
    also have "\<dots> = t + k - 24" using t Suc.prems by simp
    finally show ?thesis using False t Suc.prems by simp
  qed
  have "(CountHour ^^ Suc k) st = CountHour ?sk" using k by simp
  also have "\<dots> = set_hour (hour_byte ?m ((t + Suc k) mod 24))
        (if t + k = 23 then CountDay ?sk else ?sk)"
    unfolding step idx wrap ..
  also have "\<dots> = set_hour (hour_byte ?m ((t + Suc k) mod 24))
        (if t + Suc k \<ge> 24 then CountDay st else st)"
  proof (cases "t + k = 23")
    case True
    then show ?thesis using len by (simp add: CountDay_set_hour set_hour_simps)
  next
    case False
    then have "(t + Suc k \<ge> 24) = (t + k \<ge> 24)" by arith
    then show ?thesis using False by (simp add: set_hour_simps)
  qed
  finally show ?case .
qed


lemma hour_byte_read:
  "\<forall>t<24. bcd_decode (hour_byte True t AND 0x3F) = t \<and>
           bcd_decode (hour_byte False t AND 0x3F) = t mod 12 \<and>
           (hour_byte True t AND 0x40 \<noteq> 0) = (t \<ge> 12) \<and>
           (hour_byte False t AND 0x40 \<noteq> 0) = (t \<ge> 12)"
  unfolding hours_all day_hours_def by (simp add: hour_byte_def BCD_def bcd_decode_def)



text \<open>
  Claim C4: let the hour byte be the stored form of hour \<open>t\<close> of the day in the active
  mode. \<open>CountHour\<close> stores the form of hour \<open>t + 1\<close>, wrapping at 24, and calls \<open>CountDay\<close>
  exactly when \<open>t = 23\<close>: in 24-hour mode that is the overflow of the hour at 24; in
  12-hour mode the hour field wraps at 12, the PM flag is set from noon on, and only the
  wrap from PM to AM reaches the day counter. Twenty-four calls are one call of \<open>CountDay\<close>
  and the same hour byte again: the day advances once per 24 counted hours in both modes.
\<close>

theorem CountHour_day_carry:
  assumes len: "length (DateTime st) = 7" and t: "t < 24"
    and b: "DateTime st ! 4 = hour_byte (StatusReg1 st AND 2 \<noteq> 0) t"
  shows "CountHour st =
           set_hour (hour_byte (StatusReg1 st AND 2 \<noteq> 0) ((t + 1) mod 24))
             (if t = 23 then CountDay st else st) \<and>
         bcd_decode (DateTime (CountHour st) ! 4 AND 0x3F) =
           (if StatusReg1 st AND 2 \<noteq> 0 then (t + 1) mod 24 else (t + 1) mod 12) \<and>
         (DateTime (CountHour st) ! 4 AND 0x40 \<noteq> 0) = ((t + 1) mod 24 \<ge> 12) \<and>
         (CountHour ^^ 24) st = CountDay st"
proof -
  let ?m = "StatusReg1 st AND 2 \<noteq> 0"
  let ?X = "if t = 23 then CountDay st else st"
  have s: "CountHour st = set_hour (hour_byte ?m ((t + 1) mod 24)) ?X"
    by (rule CountHour_step [OF t b])
  have "length (DateTime ?X) = 7" using len by (simp add: CountDay_frame)
  then have n: "DateTime (CountHour st) ! 4 = hour_byte ?m ((t + 1) mod 24)"
    unfolding s by (rule set_hour_nth)
  have lt: "(t + 1) mod 24 < 24" by simp
  note r = hour_byte_read [rule_format, OF lt]
  have d: "bcd_decode (DateTime (CountHour st) ! 4 AND 0x3F) =
           (if ?m then (t + 1) mod 24 else (t + 1) mod 12)"
    unfolding n using r by (simp add: mod_mod_cancel)
  have p: "(DateTime (CountHour st) ! 4 AND 0x40 \<noteq> 0) = ((t + 1) mod 24 \<ge> 12)"
    unfolding n using r by (cases ?m) simp_all
  have "(CountHour ^^ 24) st =
          set_hour (hour_byte ?m ((t + 24) mod 24)) (if t + 24 \<ge> 24 then CountDay st else st)"
    by (rule CountHour_iter [OF len t b]) simp
  also have "\<dots> = set_hour (hour_byte ?m t) (CountDay st)" using t by simp
  also have "\<dots> = CountDay (set_hour (hour_byte ?m t) st)"
    using len by (simp add: CountDay_set_hour)
  also have "set_hour (hour_byte ?m t) st = st"
    using set_hour_simps(4) [of st] by (simp only: b [symmetric])
  finally have i: "(CountHour ^^ 24) st = CountDay st" .
  from s d p i show ?thesis by (intro conjI)
qed


text \<open>
  12-hour mode on 31 December 2023: from 11 PM the hour wraps to 12 AM and the date
  becomes 1 January 2024; from 11 AM the flag turns to PM and the date stays.
\<close>

lemma CountDay_Dec31:
  "CountDay (ResetState\<lparr>DateTime := [0x23, 0x12, 0x31, 6, 0x51, 0x59, 0x59]\<rparr>) =
   ResetState\<lparr>DateTime := [0x24, 0x01, 0x01, 0, 0x51, 0x59, 0x59]\<rparr>"
  by (simp add: CountDay_def CheckEndOfMonth_def CountMonth_def CountYear_def
        DaysInMonth_def ResetState_def BCDIncrement_def Let_def word_le_nat_alt
        word_less_nat_alt)

theorem CountHour_day_carry_witness:
  "CountHour (ResetState\<lparr>DateTime := [0x23, 0x12, 0x31, 6, 0x51, 0x59, 0x59]\<rparr>) =
     ResetState\<lparr>DateTime := [0x24, 0x01, 0x01, 0, 0x00, 0x59, 0x59]\<rparr> \<and>
   CountHour (ResetState\<lparr>DateTime := [0x23, 0x12, 0x31, 6, 0x11, 0x59, 0x59]\<rparr>) =
     ResetState\<lparr>DateTime := [0x23, 0x12, 0x31, 6, 0x40, 0x59, 0x59]\<rparr> \<and>
   (CountHour ^^ 24) (ResetState\<lparr>DateTime := [0x23, 0x12, 0x31, 6, 0x11, 0x59, 0x59]\<rparr>) =
     CountDay (ResetState\<lparr>DateTime := [0x23, 0x12, 0x31, 6, 0x11, 0x59, 0x59]\<rparr>)"
proof -
  let ?pm = "ResetState\<lparr>DateTime := [0x23, 0x12, 0x31, 6, 0x51, 0x59, 0x59]\<rparr>"
  let ?am = "ResetState\<lparr>DateTime := [0x23, 0x12, 0x31, 6, 0x11, 0x59, 0x59]\<rparr>"
  have m: "(StatusReg1 ?pm AND 2 \<noteq> 0) = False" "(StatusReg1 ?am AND 2 \<noteq> 0) = False"
    by (simp_all add: ResetState_def)
  have h: "hour_byte False 23 = 0x51" "hour_byte False 11 = 0x11" "hour_byte False 12 = 0x40"
    "hour_byte False 0 = 0x00"
    by (simp_all add: hour_byte_def BCD_def)
  have l: "length (DateTime ?pm) = 7" "length (DateTime ?am) = 7" by simp_all
  have bp: "DateTime ?pm ! 4 = hour_byte (StatusReg1 ?pm AND 2 \<noteq> 0) 23"
    unfolding m h by simp
  have ba: "DateTime ?am ! 4 = hour_byte (StatusReg1 ?am AND 2 \<noteq> 0) 11"
    unfolding m h by simp
  have "CountHour ?pm = set_hour 0x00 (CountDay ?pm)"
    using CountHour_day_carry [OF l(1) _ bp] by (simp add: h ResetState_def)
  then have "CountHour ?pm = ResetState\<lparr>DateTime := [0x24, 0x01, 0x01, 0, 0x00, 0x59, 0x59]\<rparr>"
    by (simp only: CountDay_Dec31) (simp add: set_hour_def)
  moreover have "CountHour ?am = set_hour 0x40 ?am"
    using CountHour_day_carry [OF l(2) _ ba] by (simp add: h ResetState_def)
  moreover have "set_hour 0x40 ?am =
      ResetState\<lparr>DateTime := [0x23, 0x12, 0x31, 6, 0x40, 0x59, 0x59]\<rparr>"
    by (simp add: set_hour_def)
  moreover have "(CountHour ^^ 24) ?am = CountDay ?am"
    using CountHour_day_carry [OF l(2) _ ba] by simp
  ultimately show ?thesis by simp
qed

section \<open>Command normalization\<close>

lemmas cmd_eval = decode_cmd_def bitrev8_def rev_base_def rev_ext_def Let_def

lemma bitrev8_involution: "\<forall>c. bitrev8 (bitrev8 c) = c"
  unfolding u8_split nibbles_def by (simp add: bitrev8_def)

lemma rev_tables:
  "list_all (\<lambda>l. rev_base ! unat l = bitrev8 (0x60 OR l) \<and>
                  rev_ext ! unat l = bitrev8 (0x70 OR l)) nibbles"
  unfolding nibbles_def by (simp add: cmd_eval)

lemma decode_cmd_other: "ct \<noteq> 1 \<Longrightarrow> decode_cmd ct v = decode_cmd 0 v"
  by (simp add: decode_cmd_def)

lemma decode_base_DSi:
  "\<forall>c. c AND 0x0F = 0x06 \<longrightarrow> decode_cmd 1 c = c \<and> decode_cmd 1 (bitrev8 c) = c"
  unfolding u8_split nibbles_def by (simp add: cmd_eval)

lemma decode_base_DS:
  "\<forall>c. c AND 0x0F = 0x06 \<longrightarrow> decode_cmd 0 c = c \<and> decode_cmd 0 (bitrev8 c) = c"
  unfolding u8_split nibbles_def by (simp add: cmd_eval)

lemma decode_ext_DSi:
  "\<forall>c. c AND 0x0F = 0x0E \<and> c AND 0x70 \<noteq> 0x60 \<longrightarrow>
       decode_cmd 1 c = c \<and> decode_cmd 1 (bitrev8 c) = c"
  unfolding u8_split nibbles_def by (simp add: cmd_eval)

lemma decode_base:
  "c AND 0x0F = 0x06 \<Longrightarrow> decode_cmd ct c = c \<and> decode_cmd ct (bitrev8 c) = c"
  using decode_base_DSi decode_base_DS decode_cmd_other [of ct]
  by (cases "ct = 1") simp_all

lemma ByteIn_first:
  "InputPos s = 0 \<Longrightarrow> decode_cmd ct v = decode_cmd ct w \<Longrightarrow> ByteIn ct v s = ByteIn ct w s"
  by (simp add: ByteIn_def)

lemma CmdRead_CurCmd: "CurCmd (CmdRead ct s) = CurCmd s"
  by (simp add: CmdRead_def Let_def)

lemma ByteIn_first_byte:
  assumes "InputPos s = 0" and "decode_cmd ct v = c"
  shows "ByteIn ct v s =
           Some (if c AND 0x80 \<noteq> 0 then CmdRead ct (s\<lparr>CurCmd := c\<rparr>) else s\<lparr>CurCmd := c\<rparr>)"
    and "map_option CurCmd (ByteIn ct v s) = Some c"
  using assms by (simp_all add: ByteIn_def Let_def CmdRead_CurCmd)

text \<open>
  Claim C8: for every command byte \<open>c\<close> of the base set (low nibble 6), on either
  console, the first byte of a session leaves \<open>c\<close> in \<open>CurCmd\<close> whether the host sends
  \<open>c\<close> or its bit reversal, and the read handler is dispatched on that normalized byte:
  both forms reach the same register group with the same direction and leave the module
  in the same state. On the variant console (\<open>ConsoleType = 1\<close>) the same holds for the
  bytes of the extended class (low nibble 0xE) outside group 0x60, among them every
  extended command that has a handler. The two 16-entry tables hold the bit reversals of
  the bytes 0x60 to 0x6F and 0x70 to 0x7F.
\<close>

theorem command_bit_reversal:
  "(c AND 0x0F = 0x06 \<longrightarrow>
      decode_cmd ct c = c \<and> decode_cmd ct (bitrev8 c) = c \<and>
      (InputPos s = 0 \<longrightarrow>
         ByteIn ct c s =
           Some (if c AND 0x80 \<noteq> 0 then CmdRead ct (s\<lparr>CurCmd := c\<rparr>)
                 else s\<lparr>CurCmd := c\<rparr>) \<and>
         ByteIn ct (bitrev8 c) s = ByteIn ct c s \<and>
         map_option CurCmd (ByteIn ct c s) = Some c \<and>
         map_option CurCmd (ByteIn ct (bitrev8 c) s) = Some c)) \<and>
   (c AND 0x0F = 0x0E \<and> c AND 0x70 \<noteq> 0x60 \<longrightarrow>
      decode_cmd 1 c = c \<and> decode_cmd 1 (bitrev8 c) = c \<and>
      (InputPos s = 0 \<longrightarrow>
         ByteIn 1 c s =
           Some (if c AND 0x80 \<noteq> 0 then CmdRead 1 (s\<lparr>CurCmd := c\<rparr>)
                 else s\<lparr>CurCmd := c\<rparr>) \<and>
         ByteIn 1 (bitrev8 c) s = ByteIn 1 c s \<and>
         map_option CurCmd (ByteIn 1 c s) = Some c \<and>
         map_option CurCmd (ByteIn 1 (bitrev8 c) s) = Some c)) \<and>
   bitrev8 (bitrev8 c) = c \<and>
   (\<forall>l \<in> set nibbles. rev_base ! unat l = bitrev8 (0x60 OR l) \<and>
                       rev_ext ! unat l = bitrev8 (0x70 OR l))"
proof -
  have first: "\<And>k. InputPos s = 0 \<Longrightarrow> decode_cmd k c = c \<Longrightarrow> decode_cmd k (bitrev8 c) = c \<Longrightarrow>
      ByteIn k c s =
        Some (if c AND 0x80 \<noteq> 0 then CmdRead k (s\<lparr>CurCmd := c\<rparr>) else s\<lparr>CurCmd := c\<rparr>) \<and>
      ByteIn k (bitrev8 c) s = ByteIn k c s \<and>
      map_option CurCmd (ByteIn k c s) = Some c \<and>
      map_option CurCmd (ByteIn k (bitrev8 c) s) = Some c"
    by (simp add: ByteIn_first_byte CmdRead_CurCmd)
  have 1: "c AND 0x0F = 0x06 \<longrightarrow>
      decode_cmd ct c = c \<and> decode_cmd ct (bitrev8 c) = c \<and>
      (InputPos s = 0 \<longrightarrow>
         ByteIn ct c s =
           Some (if c AND 0x80 \<noteq> 0 then CmdRead ct (s\<lparr>CurCmd := c\<rparr>)
                 else s\<lparr>CurCmd := c\<rparr>) \<and>
         ByteIn ct (bitrev8 c) s = ByteIn ct c s \<and>
         map_option CurCmd (ByteIn ct c s) = Some c \<and>
         map_option CurCmd (ByteIn ct (bitrev8 c) s) = Some c)"
    using decode_base [of c ct] first [of ct] by blast
  have 2: "c AND 0x0F = 0x0E \<and> c AND 0x70 \<noteq> 0x60 \<longrightarrow>
      decode_cmd 1 c = c \<and> decode_cmd 1 (bitrev8 c) = c \<and>
      (InputPos s = 0 \<longrightarrow>
         ByteIn 1 c s =
           Some (if c AND 0x80 \<noteq> 0 then CmdRead 1 (s\<lparr>CurCmd := c\<rparr>)
                 else s\<lparr>CurCmd := c\<rparr>) \<and>
         ByteIn 1 (bitrev8 c) s = ByteIn 1 c s \<and>
         map_option CurCmd (ByteIn 1 c s) = Some c \<and>
         map_option CurCmd (ByteIn 1 (bitrev8 c) s) = Some c)"
    using decode_ext_DSi [rule_format, of c] first [of 1] by blast
  have 3: "bitrev8 (bitrev8 c) = c" using bitrev8_involution by simp
  have 4: "\<forall>l \<in> set nibbles. rev_base ! unat l = bitrev8 (0x60 OR l) \<and>
                       rev_ext ! unat l = bitrev8 (0x70 OR l)"
    using rev_tables by (simp add: list_all_iff)
  from 1 2 3 4 show ?thesis by (intro conjI)
qed

text \<open>
  The date/time read command 0xA6 and the minute-counter read command 0x8E: the
  bit-reversed byte 0x65 opens the same date/time read session as 0xA6 and fills the
  output buffer from the register file.
\<close>

lemma memcpy_7:
  "memcpy dst src off 7 =
     dst[0 := src ! off, 1 := src ! (off + 1), 2 := src ! (off + 2), 3 := src ! (off + 3),
         4 := src ! (off + 4), 5 := src ! (off + 5), 6 := src ! (off + 6)]"
  by (simp add: eval_nat_numeral)

lemma replicate_8: "replicate 8 x = [x, x, x, x, x, x, x, x]"
  by (simp add: eval_nat_numeral)

lemma ByteIn_0xA6:
  "ByteIn 0 0xA6 (rtc_zero\<lparr>State := ResetState\<rparr>) =
     Some (rtc_zero\<lparr>Output := [0, 1, 1, 0, 0, 0, 0, 0], CurCmd := 0xA6, State := ResetState\<rparr>)"
  by (simp add: ByteIn_def decode_cmd_def CmdRead_def rtc_zero_def ResetState_def Let_def
        memcpy_7 replicate_8)

theorem command_bit_reversal_witness:
  "bitrev8 0xA6 = 0x65 \<and> decode_cmd 0 0x65 = 0xA6 \<and> decode_cmd 0 0xA6 = 0xA6 \<and>
   bitrev8 0x8E = 0x71 \<and> decode_cmd 1 0x71 = 0x8E \<and> decode_cmd 1 0x8E = 0x8E \<and>
   ByteIn 0 0x65 (rtc_zero\<lparr>State := ResetState\<rparr>) =
     Some (rtc_zero\<lparr>Output := [0, 1, 1, 0, 0, 0, 0, 0], CurCmd := 0xA6, State := ResetState\<rparr>)"
proof -
  let ?s = "rtc_zero\<lparr>State := ResetState\<rparr>"
  have r: "bitrev8 0xA6 = 0x65" "bitrev8 0x8E = 0x71" by (simp_all add: bitrev8_def)
  have z: "InputPos ?s = 0" "(0xA6::u8) AND 0x0F = 0x06" "(0x8E::u8) AND 0x0F = 0x0E"
    "(0x8E::u8) AND 0x70 \<noteq> 0x60"
    by (simp_all add: rtc_zero_def)
  have a: "decode_cmd 0 0xA6 = 0xA6 \<and> decode_cmd 0 0x65 = 0xA6 \<and>
      ByteIn 0 0x65 ?s = ByteIn 0 0xA6 ?s"
    using command_bit_reversal [of "0xA6" 0 ?s] z r by simp
  have b: "decode_cmd 1 0x8E = 0x8E \<and> decode_cmd 1 0x71 = 0x8E"
    using command_bit_reversal [of "0x8E" 0 ?s] z r by simp
  from a b r show ?thesis by (simp add: ByteIn_0xA6)
qed

section \<open>Writes after a read command\<close>

lemma CurCmd_mask:
  "(c AND 0x7F) AND 0x0F = c AND (0x0F::u8)" "(c AND 0x7F) AND 0x70 = c AND (0x70::u8)"
  by (simp_all add: and.assoc)

lemma CmdWrite_direction:
  "CmdWrite ct val s =
     map_option (\<lambda>t. t\<lparr>CurCmd := CurCmd s\<rparr>) (CmdWrite ct val (s\<lparr>CurCmd := CurCmd s AND 0x7F\<rparr>))"
  by (simp add: CmdWrite_def Let_def CurCmd_mask option.map_comp comp_def)

lemma Write_bit_in_eighth:
  assumes "InputBit s = 7" and "InputPos s \<noteq> 0"
  shows "Write_bit_in ct io s =
     map_option (\<lambda>t. t\<lparr>Input := 0, InputPos := InputPos t + 1\<rparr>)
       (CmdWrite ct (Input s OR (if io AND 0x0001 \<noteq> 0 then 0x80 else 0))
          (s\<lparr>Input := Input s OR (if io AND 0x0001 \<noteq> 0 then 0x80 else 0),
             InputBit := 0\<rparr>))"
proof (cases "io AND 0x0001 \<noteq> 0")
  case True
  then show ?thesis using assms
    by (simp add: Write_bit_in_def shl1_def ByteIn_def Let_def split: option.split)
next
  case False
  then show ?thesis using assms
    by (simp add: Write_bit_in_def shl1_def ByteIn_def Let_def split: option.split)
qed

lemma CmdRead_effect:
  "CmdRead ct s =
     s\<lparr>Output := Output (CmdRead ct s),
       State := (if CurCmd s AND 0x0F = 0x06 \<and> CurCmd s AND 0x70 = 0x00
                 then (State s)\<lparr>StatusReg1 := StatusReg1 (State s) AND 0x0F\<rparr>
                 else State s)\<rparr>"
  by (simp add: CmdRead_def Let_def)

lemma Write_eighth_bit:
  assumes "write_transfer io byte s" and "InputBit s = 7" and "InputPos s \<noteq> 0"
  shows "Write ct io byte s =
     (let val = (if byte then io OR (IO s AND 0xFF00) else io);
          data = Input s OR (if val AND 0x0001 \<noteq> 0 then 0x80 else 0)
      in map_option (\<lambda>t. t\<lparr>Input := 0, InputPos := InputPos t + 1, IO := val\<rparr>)
           (CmdWrite ct data (s\<lparr>Input := data, InputBit := 0\<rparr>)))"
proof -
  define val where "val = (if byte then io OR (IO s AND 0xFF00) else io)"
  have t: "val AND 0x0004 \<noteq> 0" "IO s AND 0x0004 \<noteq> 0" "val AND 0x0002 = 0"
    "val AND 0x0010 \<noteq> 0"
    using assms(1) by (simp_all add: write_transfer_def val_def Let_def)
  have "Write ct io byte s =
      (case Write_bit_in ct val s of None \<Rightarrow> None | Some s1 \<Rightarrow> Some (s1\<lparr>IO := val\<rparr>))"
    unfolding Write_def Let_def val_def [symmetric] using t
    by (simp split: option.split)
  also have "\<dots> =
      map_option (\<lambda>t. t\<lparr>Input := 0, InputPos := InputPos t + 1, IO := val\<rparr>)
        (CmdWrite ct (Input s OR (if val AND 0x0001 \<noteq> 0 then 0x80 else 0))
           (s\<lparr>Input := Input s OR (if val AND 0x0001 \<noteq> 0 then 0x80 else 0),
              InputBit := 0\<rparr>))"
    unfolding Write_bit_in_eighth [OF assms(2,3)]
    by (simp add: option.map_comp comp_def split: option.split)
  finally show ?thesis unfolding Let_def val_def .
qed

lemmas session_eval =
  shift_in_def Init_def rtc_zero_def StateData_zero_def ResetState_def Write_def Write_bit_in_def
  shl1_def ByteIn_def decode_cmd_def CmdRead_def CmdWrite_def CmdWrite_status1_def Let_def
  replicate_8 word_le_nat_alt word_less_nat_alt

text \<open>
  Claim C10, as stated, has the direction bit of the command do nothing but fill the
  output buffer, and the later bytes act exactly as after a write command. The read
  handler of status register 1 also clears bits 4 to 7 of that register. From the state
  that \<open>Init\<close> leaves (power-on flag 0x80), the session that shifts in the read command
  0x86 and then the byte 0x00 ends with status register 1 at 0x00; the session that
  shifts in the write command 0x06 and then 0x00 ends with 0x80.
\<close>

theorem status1_read_session_counterexample:
  "StatusReg1 (State (Init rtc_zero)) = 0x80 \<and>
   map_option (\<lambda>s. StatusReg1 (State s))
     (run 0 (EvWrite 0x0014 False # shift_in 0x86 @ shift_in 0x00) (Init rtc_zero)) =
     Some 0x00 \<and>
   map_option (\<lambda>s. StatusReg1 (State s))
     (run 0 (EvWrite 0x0014 False # shift_in 0x06 @ shift_in 0x00) (Init rtc_zero)) =
     Some 0x80"
  by (simp add: session_eval)

text \<open>
  Claim C10, amended: the first byte of a session sets \<open>CurCmd\<close> and, for a read
  command, runs the read handler, which fills the output buffer and, for the status-1
  read only, clears bits 4 to 7 of status register 1; it changes nothing else. Every later
  byte goes to \<open>CmdWrite\<close> whatever bit 7 of \<open>CurCmd\<close> is, and \<open>CmdWrite\<close> does to the
  register file it finds what it does for the write command of the same group (\<open>CurCmd\<close>
  with bit 7 cleared), \<open>CurCmd\<close> itself apart. The eighth bit that the host shifts in
  with the direction bit set to write hands the assembled byte to \<open>CmdWrite\<close> in that way,
  from \<open>Write\<close> through the bit-level input path.
\<close>

theorem read_command_then_write:
  "(InputPos s = 0 \<longrightarrow>
      ByteIn ct val s =
        Some (if decode_cmd ct val AND 0x80 \<noteq> 0
              then CmdRead ct (s\<lparr>CurCmd := decode_cmd ct val\<rparr>)
              else s\<lparr>CurCmd := decode_cmd ct val\<rparr>)) \<and>
   CmdRead ct s =
     s\<lparr>Output := Output (CmdRead ct s),
       State := (if CurCmd s AND 0x0F = 0x06 \<and> CurCmd s AND 0x70 = 0x00
                 then (State s)\<lparr>StatusReg1 := StatusReg1 (State s) AND 0x0F\<rparr>
                 else State s)\<rparr> \<and>
   (InputPos s \<noteq> 0 \<longrightarrow>
      ByteIn ct val s = CmdWrite ct val s \<and>
      CmdWrite ct val s =
        map_option (\<lambda>t. t\<lparr>CurCmd := CurCmd s\<rparr>)
          (CmdWrite ct val (s\<lparr>CurCmd := CurCmd s AND 0x7F\<rparr>)) \<and>
      (InputBit s = 7 \<longrightarrow>
         Write_bit_in ct io s =
           map_option (\<lambda>t. t\<lparr>Input := 0, InputPos := InputPos t + 1\<rparr>)
             (CmdWrite ct (Input s OR (if io AND 0x0001 \<noteq> 0 then 0x80 else 0))
                (s\<lparr>Input := Input s OR (if io AND 0x0001 \<noteq> 0 then 0x80 else 0),
                   InputBit := 0\<rparr>))) \<and>
      (InputBit s = 7 \<and> write_transfer io byte s \<longrightarrow>
         Write ct io byte s =
           (let v = (if byte then io OR (IO s AND 0xFF00) else io);
                data = Input s OR (if v AND 0x0001 \<noteq> 0 then 0x80 else 0)
            in map_option (\<lambda>t. t\<lparr>Input := 0, InputPos := InputPos t + 1, IO := v\<rparr>)
                 (CmdWrite ct data (s\<lparr>Input := data, InputBit := 0\<rparr>)))))"
proof -
  have 1: "InputPos s = 0 \<longrightarrow>
      ByteIn ct val s =
        Some (if decode_cmd ct val AND 0x80 \<noteq> 0
              then CmdRead ct (s\<lparr>CurCmd := decode_cmd ct val\<rparr>)
              else s\<lparr>CurCmd := decode_cmd ct val\<rparr>)"
    by (simp add: ByteIn_def Let_def)
  have 3: "InputPos s \<noteq> 0 \<longrightarrow> ByteIn ct val s = CmdWrite ct val s"
    by (simp add: ByteIn_def)
  have 5: "InputPos s \<noteq> 0 \<longrightarrow> InputBit s = 7 \<longrightarrow>
         Write_bit_in ct io s =
           map_option (\<lambda>t. t\<lparr>Input := 0, InputPos := InputPos t + 1\<rparr>)
             (CmdWrite ct (Input s OR (if io AND 0x0001 \<noteq> 0 then 0x80 else 0))
                (s\<lparr>Input := Input s OR (if io AND 0x0001 \<noteq> 0 then 0x80 else 0),
                   InputBit := 0\<rparr>))"
    using Write_bit_in_eighth [of s ct io] by blast
  have 6: "InputPos s \<noteq> 0 \<longrightarrow> InputBit s = 7 \<and> write_transfer io byte s \<longrightarrow>
         Write ct io byte s =
           (let v = (if byte then io OR (IO s AND 0xFF00) else io);
                data = Input s OR (if v AND 0x0001 \<noteq> 0 then 0x80 else 0)
            in map_option (\<lambda>t. t\<lparr>Input := 0, InputPos := InputPos t + 1, IO := v\<rparr>)
                 (CmdWrite ct data (s\<lparr>Input := data, InputBit := 0\<rparr>)))"
    using Write_eighth_bit [of io byte s ct] by blast
  from 1 CmdRead_effect [of ct s] 3 CmdWrite_direction [of ct val s] 5 6
  show ?thesis by blast
qed

text \<open>
  A session opened with the date/time read command 0xA6 whose next byte writes the year,
  at the level of \<open>ByteIn\<close> and shifted in bit by bit.
\<close>

lemma ByteIn_read_command:
  "ByteIn 0 0xA6 (in_session 0 0 ResetState) =
     Some ((in_session 0xA6 0 ResetState)\<lparr>Output := [0, 1, 1, 0, 0, 0, 0, 0]\<rparr>)"
  by (simp add: ByteIn_def decode_cmd_def CmdRead_def in_session_def rtc_zero_def ResetState_def
        Let_def memcpy_7 replicate_8)

lemma CmdWrite_year:
  "CmdWrite 0 0x24 (in_session 0x26 1 ResetState) =
     Some (in_session 0x26 1 (ResetState\<lparr>DateTime := [0x24, 1, 1, 0, 0, 0, 0]\<rparr>))"
  by (simp add: CmdWrite_def WriteDateTime_def in_session_def rtc_zero_def ResetState_def
        byte_eval)

lemma session_0xA6_year:
  "map_option (\<lambda>s. DateTime (State s))
     (run 0 (EvWrite 0x0014 False # shift_in 0xA6 @ shift_in 0x24) (Init rtc_zero)) =
     Some [0x24, 1, 1, 0, 0, 0, 0]"
  by (simp add: session_eval WriteDateTime_def BCDSanitize_def memcpy_7)

theorem read_command_then_write_witness:
  "ByteIn 0 0xA6 (in_session 0 0 ResetState) =
     Some ((in_session 0xA6 0 ResetState)\<lparr>Output := [0, 1, 1, 0, 0, 0, 0, 0]\<rparr>) \<and>
   ByteIn 0 0x24 (in_session 0xA6 1 ResetState) =
     Some (in_session 0xA6 1 (ResetState\<lparr>DateTime := [0x24, 1, 1, 0, 0, 0, 0]\<rparr>)) \<and>
   map_option (\<lambda>s. DateTime (State s))
     (run 0 (EvWrite 0x0014 False # shift_in 0xA6 @ shift_in 0x24) (Init rtc_zero)) =
     Some [0x24, 1, 1, 0, 0, 0, 0]"
proof -
  have c: "CurCmd (in_session 0xA6 1 ResetState) AND 0x7F = 0x26"
    "InputPos (in_session 0xA6 1 ResetState) \<noteq> 0"
    "(in_session 0xA6 1 ResetState)\<lparr>CurCmd := 0x26\<rparr> = in_session 0x26 1 ResetState"
    by (simp_all add: in_session_def)
  have "ByteIn 0 0x24 (in_session 0xA6 1 ResetState) =
        map_option (\<lambda>t. t\<lparr>CurCmd := CurCmd (in_session 0xA6 1 ResetState)\<rparr>)
          (CmdWrite 0 0x24 ((in_session 0xA6 1 ResetState)
             \<lparr>CurCmd := CurCmd (in_session 0xA6 1 ResetState) AND 0x7F\<rparr>))"
    using read_command_then_write [of "in_session 0xA6 1 ResetState" 0 "0x24"] c(2)
    by simp
  then have "ByteIn 0 0x24 (in_session 0xA6 1 ResetState) =
      Some (in_session 0xA6 1 (ResetState\<lparr>DateTime := [0x24, 1, 1, 0, 0, 0, 0]\<rparr>))"
    by (simp only: c CmdWrite_year) (simp add: in_session_def)
  then show ?thesis using ByteIn_read_command session_0xA6_year by simp
qed

section \<open>The output cursor\<close>

lemma memcpy_length: "length (memcpy dst src off n) = length dst"
  by (induction n) simp_all

lemma CmdRead_frame:
  "length (Output (CmdRead ct s)) = length (Output s)"
  "OutputPos (CmdRead ct s) = OutputPos s"
  "OutputBit (CmdRead ct s) = OutputBit s"
  "InputBit (CmdRead ct s) = InputBit s"
  "InputPos (CmdRead ct s) = InputPos s"
  "IO (CmdRead ct s) = IO s"
  by (simp_all add: CmdRead_def Let_def memcpy_length)

lemma CmdWrite_total:
  assumes "InputPos s \<noteq> 0"
  shows "\<exists>st. CmdWrite ct val s = Some (s\<lparr>State := st\<rparr>)"
proof -
  define P where "P r \<longleftrightarrow> (\<exists>st. r = Some (s\<lparr>State := st\<rparr>))" for r
  have base: "\<And>st. P (Some (s\<lparr>State := st\<rparr>))" by (auto simp add: P_def)
  have same: "P (Some s)" using base [of "State s"] by simp
  have idx: "InputPos s \<le> 3 \<Longrightarrow> unat (InputPos s - 1) < 3"
    using assms by unat_arith
  have "P (CmdWrite ct val s)"
    unfolding CmdWrite_def Let_def by (simp add: arr_store_def idx base same)
  then show ?thesis by (simp add: P_def)
qed

lemma cursor_small:
  fixes x :: u32
  assumes "x < 8"
  shows "x = 0 \<or> x = 1 \<or> x = 2 \<or> x = 3 \<or> x = 4 \<or> x = 5 \<or> x = 6 \<or> x = 7"
proof -
  from assms have "unat x < 8" by (simp add: word_less_nat_alt)
  then have "unat x \<in> {0, 1, 2, 3, 4, 5, 6, 7}" by simp arith
  then have "of_nat (unat x) \<in> (of_nat ` {0, 1, 2, 3, 4, 5, 6, 7} :: u32 set)"
    by (rule imageI)
  then show ?thesis by simp
qed

lemma cursor_words:
  fixes x :: u32
  shows "x < 8 \<Longrightarrow> (8 \<le> x + 1) = (x = 7)"
    and "x < 8 \<Longrightarrow> unat x < 32"
    and "x \<le> 7 \<Longrightarrow> unat x < 8"
    and "x < 7 \<Longrightarrow> x + 1 \<le> 7"
proof -
  show "x < 8 \<Longrightarrow> (8 \<le> x + 1) = (x = 7)"
    by (drule cursor_small) (elim disjE, simp_all add: word_le_nat_alt)
  show "x < 8 \<Longrightarrow> unat x < 32" by (simp add: word_less_nat_alt)
  show "x \<le> 7 \<Longrightarrow> unat x < 8" by (simp add: word_le_nat_alt)
  show "x < 7 \<Longrightarrow> x + 1 \<le> 7"
  proof -
    assume a: "x < 7"
    then have "x < 8" by (simp add: word_less_nat_alt)
    then have "x = 0 \<or> x = 1 \<or> x = 2 \<or> x = 3 \<or> x = 4 \<or> x = 5 \<or> x = 6 \<or> x = 7"
      by (rule cursor_small)
    then show ?thesis using a by (elim disjE) (simp_all add: word_le_nat_alt)
  qed
qed

lemma ByteIn_frame:
  "\<exists>s'. ByteIn ct v s = Some s' \<and> length (Output s') = length (Output s) \<and>
        OutputPos s' = OutputPos s \<and> OutputBit s' = OutputBit s \<and>
        InputBit s' = InputBit s \<and> InputPos s' = InputPos s \<and> IO s' = IO s"
proof (cases "InputPos s = 0")
  case True
  then show ?thesis by (simp add: ByteIn_def Let_def CmdRead_frame)
next
  case False
  then obtain st where "CmdWrite ct v s = Some (s\<lparr>State := st\<rparr>)"
    using CmdWrite_total by blast
  then show ?thesis using False by (simp add: ByteIn_def)
qed


lemma Write_bit_in_inv:
  assumes "session_inv s"
  shows "\<exists>s'. Write_bit_in ct val s = Some s' \<and> session_inv s' \<and>
              OutputPos s' = OutputPos s \<and> OutputBit s' = OutputBit s \<and> IO s' = IO s"
proof -
  from assms have b: "InputBit s < 8" by (simp add: session_inv_def)
  define s1 where "s1 = (if val AND 0x0001 \<noteq> 0
      then s\<lparr>Input := Input s OR ucast (push_bit (unat (InputBit s)) (1::u32))\<rparr> else s)"
  have e1: "(if val AND 0x0001 \<noteq> 0
            then map_option (\<lambda>b. s\<lparr>Input := Input s OR ucast b\<rparr>) (shl1 (InputBit s))
            else Some s) = Some s1"
    using cursor_words(2) [OF b] by (simp add: s1_def shl1_def)
  have f1: "InputBit s1 = InputBit s" "Output s1 = Output s" "OutputPos s1 = OutputPos s"
    "OutputBit s1 = OutputBit s" "IO s1 = IO s"
    by (simp_all add: s1_def)
  show ?thesis
  proof (cases "InputBit s = 7")
    case True
    let ?s2 = "s1\<lparr>InputBit := InputBit s1 + 1\<rparr>"
    obtain s3 where s3: "ByteIn ct (Input ?s2) (?s2\<lparr>InputBit := 0\<rparr>) = Some s3"
      "length (Output s3) = length (Output (?s2\<lparr>InputBit := 0\<rparr>))"
      "OutputPos s3 = OutputPos (?s2\<lparr>InputBit := 0\<rparr>)"
      "OutputBit s3 = OutputBit (?s2\<lparr>InputBit := 0\<rparr>)"
      "InputBit s3 = InputBit (?s2\<lparr>InputBit := 0\<rparr>)"
      "IO s3 = IO (?s2\<lparr>InputBit := 0\<rparr>)"
      using ByteIn_frame [of ct "Input ?s2" "?s2\<lparr>InputBit := 0\<rparr>"] by blast
    have "Write_bit_in ct val s = Some (s3\<lparr>Input := 0, InputPos := InputPos s3 + 1\<rparr>)"
      unfolding Write_bit_in_def e1 using True s3(1) by (simp add: f1 Let_def)
    then show ?thesis using assms s3 by (simp add: session_inv_def f1)
  next
    case False
    with b have n: "\<not> 8 \<le> InputBit s + 1" by (simp add: cursor_words(1))
    then have "Write_bit_in ct val s = Some (s1\<lparr>InputBit := InputBit s1 + 1\<rparr>)"
      unfolding Write_bit_in_def e1 by (simp add: f1 Let_def)
    then show ?thesis using assms n by (simp add: session_inv_def f1)
  qed
qed

lemma Write_bit_out_inv:
  assumes "session_inv s"
  shows "\<exists>s'. Write_bit_out s = Some s' \<and> session_inv s' \<and>
              OutputPos s' = (if OutputBit s = 7 \<and> OutputPos s < 7
                              then OutputPos s + 1 else OutputPos s) \<and>
              OutputBit s' = (if OutputBit s = 7 then 0 else OutputBit s + 1) \<and>
              Output s' = Output s"
proof -
  from assms have b: "OutputBit s < 8" and p: "OutputPos s \<le> 7"
    by (simp_all add: session_inv_def)
  note w = cursor_words(2) [OF b] cursor_words(3) [OF p] cursor_words(1) [OF b]
  show ?thesis
  proof (cases "OutputBit s = 7")
    case True
    then show ?thesis using assms w
      by (auto simp add: Write_bit_out_def shl1_def Let_def session_inv_def cursor_words(4))
  next
    case False
    then show ?thesis using assms w
      by (auto simp add: Write_bit_out_def shl1_def Let_def session_inv_def)
  qed
qed



lemma Write_inv:
  assumes inv: "session_inv s"
  shows "\<exists>s'. Write ct val0 byte s = Some s' \<and> session_inv s' \<and>
           (read_transfer val0 byte s \<longrightarrow>
              OutputPos s' = (if OutputBit s = 7 \<and> OutputPos s < 7
                              then OutputPos s + 1 else OutputPos s) \<and>
              OutputBit s' = (if OutputBit s = 7 then 0 else OutputBit s + 1) \<and>
              Output s' = Output s) \<and>
           (\<not> read_transfer val0 byte s \<longrightarrow> OutputPos s' = OutputPos s \<or> OutputPos s' = 0)"
proof -
  define val where "val = (if byte then val0 OR (IO s AND 0xFF00) else val0)"
  define fin where "fin s1 = (if val AND 0x0010 \<noteq> 0 then s1\<lparr>IO := val\<rparr>
      else s1\<lparr>IO := (IO s1 AND 0x0001) OR (val AND 0xFFFE)\<rparr>)" for s1 :: rtc
  have fin: "\<And>s1. session_inv (fin s1) = session_inv s1 \<and> OutputPos (fin s1) = OutputPos s1 \<and>
      OutputBit (fin s1) = OutputBit s1 \<and> Output (fin s1) = Output s1"
    by (simp add: fin_def session_inv_def)
  have rt: "read_transfer val0 byte s \<longleftrightarrow>
      val AND 0x0004 \<noteq> 0 \<and> IO s AND 0x0004 \<noteq> 0 \<and> val AND 0x0002 = 0 \<and> val AND 0x0010 = 0"
    by (simp add: read_transfer_def val_def Let_def)
  consider (idle) "val AND 0x0004 = 0 \<or> (IO s AND 0x0004 \<noteq> 0 \<and> val AND 0x0002 \<noteq> 0)"
    | (start) "val AND 0x0004 \<noteq> 0" "IO s AND 0x0004 = 0"
    | (inbit) "val AND 0x0004 \<noteq> 0" "IO s AND 0x0004 \<noteq> 0" "val AND 0x0002 = 0"
        "val AND 0x0010 \<noteq> 0"
    | (outbit) "val AND 0x0004 \<noteq> 0" "IO s AND 0x0004 \<noteq> 0" "val AND 0x0002 = 0"
        "val AND 0x0010 = 0"
    by blast
  then show ?thesis
  proof cases
    case idle
    then have "Write ct val0 byte s = Some (fin s)"
      unfolding Write_def Let_def val_def [symmetric] fin_def by auto
    moreover have "\<not> read_transfer val0 byte s" using idle rt by auto
    ultimately show ?thesis using inv fin [of s] by simp
  next
    case start
    let ?s1 = "s\<lparr>Input := 0, InputBit := 0, InputPos := 0,
                  Output := replicate 8 0, OutputBit := 0, OutputPos := 0\<rparr>"
    have "Write ct val0 byte s = Some (fin ?s1)"
      unfolding Write_def Let_def val_def [symmetric] fin_def using start by simp
    moreover have "\<not> read_transfer val0 byte s" using start rt by simp
    moreover have "session_inv ?s1" by (simp add: session_inv_def)
    ultimately show ?thesis using fin [of ?s1] by simp
  next
    case inbit
    obtain s1 where s1: "Write_bit_in ct val s = Some s1" "session_inv s1"
      "OutputPos s1 = OutputPos s"
      using Write_bit_in_inv [OF inv, of ct val] by blast
    have "Write ct val0 byte s = Some (fin s1)"
      unfolding Write_def Let_def val_def [symmetric] fin_def using inbit s1(1) by simp
    moreover have "\<not> read_transfer val0 byte s" using inbit rt by simp
    ultimately show ?thesis using s1 fin [of s1] by simp
  next
    case outbit
    obtain s1 where s1: "Write_bit_out s = Some s1" "session_inv s1"
      "OutputPos s1 = (if OutputBit s = 7 \<and> OutputPos s < 7
                       then OutputPos s + 1 else OutputPos s)"
      "OutputBit s1 = (if OutputBit s = 7 then 0 else OutputBit s + 1)"
      "Output s1 = Output s"
      using Write_bit_out_inv [OF inv] by blast
    have "Write ct val0 byte s = Some (fin s1)"
      unfolding Write_def Let_def val_def [symmetric] fin_def using outbit s1(1) by simp
    moreover have "read_transfer val0 byte s" using outbit rt by simp
    ultimately show ?thesis using s1 fin [of s1] by simp
  qed
qed

lemma step_inv:
  assumes "session_inv s" and "step ct e s = Some s'"
  shows "session_inv s'"
proof (cases e)
  case EvReset
  then show ?thesis using assms
    by (auto simp add: Reset_def ScheduleTimer_def session_inv_def Let_def)
next
  case (EvWrite val byte)
  then show ?thesis using assms Write_inv [OF assms(1), of ct val byte] by auto
next
  case EvTick
  then show ?thesis using assms
    by (auto simp add: ClockTimer_def ScheduleTimer_def session_inv_def Let_def)
next
  case (EvState st)
  then show ?thesis using assms by (auto simp add: session_inv_def)
qed

lemma run_inv: "session_inv s \<Longrightarrow> run ct evs s = Some s' \<Longrightarrow> session_inv s'"
proof (induction evs arbitrary: s)
  case Nil
  then show ?case by simp
next
  case (Cons e evs)
  then show ?case by (auto split: option.splits dest: step_inv)
qed

lemma run_total: "session_inv s \<Longrightarrow> \<exists>s'. run ct evs s = Some s'"
proof (induction evs arbitrary: s)
  case Nil
  then show ?case by simp
next
  case (Cons e evs)
  have "\<exists>s1. step ct e s = Some s1"
  proof (cases e)
    case (EvWrite val byte)
    then show ?thesis using Write_inv [OF Cons.prems, of ct val byte] by auto
  qed simp_all
  then obtain s1 where s1: "step ct e s = Some s1" by blast
  then have "session_inv s1" using Cons.prems step_inv by blast
  then show ?case using Cons.IH [of s1] s1 by simp
qed

lemma session_inv_zero: "session_inv rtc_zero"
  by (simp add: session_inv_def rtc_zero_def)

text \<open>
  Claim C9: every sequence of host events runs to the end from the zero-initialised
  globals, so no event indexes \<open>Output\<close> past its end, and in the state it reaches
  \<open>OutputPos\<close> is at most 7 and below the length of \<open>Output\<close>. A further \<open>Write\<close> in that
  state succeeds; when it is a read-direction bit transfer, \<open>OutputPos\<close> advances by one
  exactly when \<open>OutputBit\<close> wraps from 7 and \<open>OutputPos\<close> is below 7, and the buffer is
  unchanged, so at position 7 the last byte repeats; any other \<open>Write\<close> leaves \<open>OutputPos\<close>
  alone or resets it to 0.
\<close>

theorem output_cursor_bounded:
  "\<exists>s. run ct evs rtc_zero = Some s \<and>
        OutputPos s \<le> 7 \<and> unat (OutputPos s) < length (Output s) \<and>
        length (Output s) = 8 \<and> OutputBit s < 8 \<and>
        (\<exists>s'. Write ct val byte s = Some s' \<and>
           (read_transfer val byte s \<longrightarrow>
              OutputPos s' = (if OutputBit s = 7 \<and> OutputPos s < 7
                              then OutputPos s + 1 else OutputPos s) \<and>
              OutputBit s' = (if OutputBit s = 7 then 0 else OutputBit s + 1) \<and>
              Output s' = Output s) \<and>
           (\<not> read_transfer val byte s \<longrightarrow> OutputPos s' = OutputPos s \<or> OutputPos s' = 0))"
proof -
  obtain s where s: "run ct evs rtc_zero = Some s"
    using run_total [OF session_inv_zero] by blast
  have inv: "session_inv s" using session_inv_zero s by (rule run_inv)
  then have b: "OutputPos s \<le> 7" "length (Output s) = 8" "OutputBit s < 8"
    by (simp_all add: session_inv_def)
  then have i: "unat (OutputPos s) < length (Output s)"
    by (simp add: cursor_words(3))
  have w: "\<exists>s'. Write ct val byte s = Some s' \<and>
            (read_transfer val byte s \<longrightarrow>
               OutputPos s' = (if OutputBit s = 7 \<and> OutputPos s < 7
                               then OutputPos s + 1 else OutputPos s) \<and>
               OutputBit s' = (if OutputBit s = 7 then 0 else OutputBit s + 1) \<and>
               Output s' = Output s) \<and>
            (\<not> read_transfer val byte s \<longrightarrow> OutputPos s' = OutputPos s \<or> OutputPos s' = 0)"
    using Write_inv [OF inv, of ct val byte] by blast
  from s b i w show ?thesis by blast
qed

text \<open>A reset, the start of a transfer, and the first read-direction bit.\<close>

lemma run_reset_select:
  "run 0 [EvReset, EvWrite 0x0004 False] rtc_zero = Some (rtc_zero\<lparr>IO := 4, TimerError := 25086\<rparr>)"
  by (simp add: Reset_def ScheduleTimer_def Write_def rtc_zero_def Let_def)

lemma Write_first_read_bit:
  "Write 0 0x0004 False (rtc_zero\<lparr>IO := 4, TimerError := 25086\<rparr>) =
     Some (rtc_zero\<lparr>IO := 4, OutputBit := 1, TimerError := 25086\<rparr>)"
  by (simp add: Write_def Write_bit_out_def shl1_def rtc_zero_def Let_def word_le_nat_alt)

theorem output_cursor_bounded_witness:
  "run 0 [EvReset, EvWrite 0x0004 False] rtc_zero =
     Some (rtc_zero\<lparr>IO := 4, TimerError := 25086\<rparr>) \<and>
   read_transfer 0x0004 False (rtc_zero\<lparr>IO := 4, TimerError := 25086\<rparr>) \<and>
   Write 0 0x0004 False (rtc_zero\<lparr>IO := 4, TimerError := 25086\<rparr>) =
     Some (rtc_zero\<lparr>IO := 4, OutputBit := 1, TimerError := 25086\<rparr>) \<and>
   OutputPos (rtc_zero\<lparr>IO := 4, OutputBit := 1, TimerError := 25086\<rparr>) = 0"
  using output_cursor_bounded [of 0 "[EvReset, EvWrite 0x0004 False]" "0x0004" False]
  by (simp only: run_reset_select Write_first_read_bit)
     (simp add: read_transfer_def rtc_zero_def)

end
